theory Spec2Isabelle
  imports Main "HOL-Library.Word"
begin

section \<open>The rollrus hook: a logrus hook that reports to Rollbar\<close>

text \<open>
  A shallow embedding of \<^verbatim>\<open>rollrus.go\<close>. Every definition below carries the name of
  the Go function, variable or type it translates. What the hook takes from its two
  libraries (logrus and rollbar-go) and from the Go runtime is written out in the first
  subsections, so that the translation of the hook itself can be read against the source
  line by line.
\<close>

subsection \<open>logrus: levels and the error key\<close>

text \<open>
  \<^verbatim>\<open>type Level uint32\<close>, with the constants \<^verbatim>\<open>PanicLevel\<close> (0) to \<^verbatim>\<open>TraceLevel\<close> (6)
  declared by \<^verbatim>\<open>iota\<close>: a numerically smaller level is more severe. \<^verbatim>\<open>AllLevels\<close> lists
  them in that order, and \<^verbatim>\<open>ErrorKey\<close> is the field name \<^verbatim>\<open>WithError\<close> stores under.
\<close>

type_synonym Level = "32 word"

definition PanicLevel :: Level where "PanicLevel = 0"
definition FatalLevel :: Level where "FatalLevel = 1"
definition ErrorLevel :: Level where "ErrorLevel = 2"
definition WarnLevel :: Level where "WarnLevel = 3"
definition InfoLevel :: Level where "InfoLevel = 4"
definition DebugLevel :: Level where "DebugLevel = 5"
definition TraceLevel :: Level where "TraceLevel = 6"

definition AllLevels :: "Level list" where
  "AllLevels = [PanicLevel, FatalLevel, ErrorLevel, WarnLevel, InfoLevel, DebugLevel, TraceLevel]"

definition ErrorKey :: string where
  "ErrorKey = ''error''"

subsection \<open>Go values: slices, errors, times, interface values\<close>

text \<open>
  A slice is \<^verbatim>\<open>nil\<close> or holds a (possibly empty) sequence of elements; the two empty
  slices differ under \<^verbatim>\<open>== nil\<close>, which \<^verbatim>\<open>Levels\<close> tests. \<open>None\<close> is the nil slice.
  \<^verbatim>\<open>append(s, x)\<close> on a nil slice gives a slice that is not nil.
\<close>

type_synonym 'a slice = "'a list option"

fun elems :: "'a slice \<Rightarrow> 'a list" where
  "elems None = []"
| "elems (Some xs) = xs"

fun append1 :: "'a slice \<Rightarrow> 'a \<Rightarrow> 'a slice" where
  "append1 None x = Some [x]"
| "append1 (Some xs) x = Some (xs @ [x])"

text \<open>
  A call of a method of a caller's value (\<^verbatim>\<open>Error()\<close>, \<^verbatim>\<open>String()\<close>) returns a text or
  panics, as a method with a value receiver does when it is called through a nil pointer.
  What a panic carries is not modelled.
\<close>

datatype call_result = Returns string | Panics

text \<open>
  The dynamic type of a value, with whether the type is comparable, and what \<^verbatim>\<open>==\<close>
  looks at in a value of a comparable type: \<open>Word\<close> for a boolean, a number, a string, a
  pointer or a channel (two are equal when they are the same), \<open>NaN\<close> for a floating-point
  value that is not a number (equal to nothing, itself included), \<open>Fields\<close> for the fields
  of a struct or the elements of an array in their order, and for a field or element of
  interface type \<open>Nil_iface\<close> or \<open>Iface\<close> with the dynamic type and the value it holds.
  \<open>Fresh\<close> is the address of an object allocated during the call under study, which no
  value that existed before the call can hold.
\<close>

datatype go_type = GoType (type_name: string) (comparable: bool)

datatype go_data =
    Word nat
  | NaN
  | Fresh
  | Nil_iface
  | Iface go_type go_data
  | Fields "go_data list"

datatype go_panic = UncomparableType go_type | MethodPanic

text \<open>
  \<^verbatim>\<open>==\<close> on two values of one comparable type, after the language specification: the
  fields of a struct and the elements of an array are compared in their order and the
  comparison stops at the first pair that differs; two interface values are equal when
  both are nil or when they have identical dynamic types and equal values, and comparing
  them panics when that identical type is not comparable.
\<close>

fun data_eq :: "go_data \<Rightarrow> go_data \<Rightarrow> go_panic + bool"
  and fields_eq :: "go_data list \<Rightarrow> go_data list \<Rightarrow> go_panic + bool" where
  "data_eq (Word a) (Word b) = Inr (a = b)"
| "data_eq Fresh Fresh = Inr True"
| "data_eq Nil_iface Nil_iface = Inr True"
| "data_eq (Iface t d) (Iface t' d') =
     (if t \<noteq> t' then Inr False
      else if \<not> comparable t then Inl (UncomparableType t)
      else data_eq d d')"
| "data_eq (Fields xs) (Fields ys) = fields_eq xs ys"
| "data_eq _ _ = Inr False"
| "fields_eq [] [] = Inr True"
| "fields_eq (x # xs) (y # ys) =
     (case data_eq x y of
        Inl p \<Rightarrow> Inl p
      | Inr True \<Rightarrow> fields_eq xs ys
      | Inr False \<Rightarrow> Inr False)"
| "fields_eq _ _ = Inr False"

text \<open>
  A non-nil value of interface type \<^verbatim>\<open>error\<close>: its dynamic type, what \<^verbatim>\<open>==\<close> looks at in
  it, and what a call of its \<^verbatim>\<open>Error()\<close> method does.
\<close>

record go_error =
  dyn_type :: go_type
  repr :: go_data
  Error :: call_result

text \<open>
  A \<^verbatim>\<open>time.Time\<close> is used only through \<^verbatim>\<open>Format(time.RFC3339)\<close>; it is represented by
  the text that call returns.
\<close>

datatype go_time = GoTime string

fun Format_RFC3339 :: "go_time \<Rightarrow> string" where
  "Format_RFC3339 (GoTime s) = s"

text \<open>
  A value of type \<^verbatim>\<open>interface{}\<close> stored in a field, seen through the four questions
  the hook asks of it: is its dynamic type \<^verbatim>\<open>time.Time\<close>, does it implement \<^verbatim>\<open>error\<close>
  (and which error is it then), does it implement \<^verbatim>\<open>fmt.Stringer\<close> (and what does a
  call of \<^verbatim>\<open>String()\<close> do), and what does \<^verbatim>\<open>fmt.Sprintf("%+v", v)\<close> print (\<^verbatim>\<open>Sprintf\<close>
  recovers from a panic of a method it calls, so it always returns). The record does not
  tie the answers together, so it also covers combinations no Go value has.
\<close>

record go_value =
  as_time :: "go_time option"
  as_error :: "go_error option"
  as_stringer :: "call_result option"
  sprintf_plus_v :: string

type_synonym Fields = "string \<rightharpoonup> go_value"

record Entry =
  Level :: Level
  Message :: string
  Time :: go_time
  Data :: Fields

subsection \<open>fmt.Errorf called with a format string and no operands\<close>

text \<open>
  \<^verbatim>\<open>extractError\<close> ends in \<^verbatim>\<open>fmt.Errorf(entry.Message)\<close>: the message is the format string
  and there is no operand. This subsection follows \<^verbatim>\<open>doPrintf\<close> of package \<^verbatim>\<open>fmt\<close> for
  that case, on the bytes of the format. Text up to a percent sign is copied. After a
  percent sign come flags, an argument index, a width, a precision, a second argument
  index and the verb; with no operand the verb prints itself as missing, an argument index
  is always out of range, and a star has no operand to read. The position \<^verbatim>\<open>i\<close> in the
  format is kept as the rest of the format from \<^verbatim>\<open>i\<close> on.
\<close>

definition byte_of :: "char \<Rightarrow> nat" where
  "byte_of c = of_char c"

definition tooLarge :: "nat \<Rightarrow> bool" where
  "tooLarge x = (x > 1000000)"

definition is_digit :: "char \<Rightarrow> bool" where
  "is_digit c = (byte_of CHR ''0'' \<le> byte_of c \<and> byte_of c \<le> byte_of CHR ''9'')"

text \<open>
  \<^verbatim>\<open>parsenum(s, start, end)\<close> on the text \<^verbatim>\<open>s[start:end]\<close>: the number, whether there is
  one, and the text from \<^verbatim>\<open>newi\<close> on. A number above a million gives up and skips to the
  end.
\<close>

fun parsenum_loop :: "nat \<Rightarrow> bool \<Rightarrow> string \<Rightarrow> nat \<times> bool \<times> string" where
  "parsenum_loop num isnum [] = (num, isnum, [])"
| "parsenum_loop num isnum (c # cs) =
     (if is_digit c
      then (if tooLarge num then (0, False, [])
            else parsenum_loop (num * 10 + (byte_of c - byte_of CHR ''0'')) True cs)
      else (num, isnum, c # cs))"

definition parsenum :: "string \<Rightarrow> nat \<times> bool \<times> string" where
  "parsenum s = (if s = [] then (0, False, []) else parsenum_loop 0 False s)"

text \<open>
  \<^verbatim>\<open>parseArgNumber(format)\<close>, for a format that starts with an opening bracket: the
  index, the number of bytes to skip, and whether the bracket holds a number.
\<close>

definition parseArgNumber :: "string \<Rightarrow> int \<times> nat \<times> bool" where
  "parseArgNumber format =
     (if length format < 3 then (0, 1, False)
      else let body = takeWhile (\<lambda>c. c \<noteq> CHR '']'') (tl format);
               i = length body + 1
           in if i < length format
              then (case parsenum body of
                      (width, ok, rest) \<Rightarrow>
                        if \<not> ok \<or> rest \<noteq> [] then (0, i + 1, False)
                        else (int width - 1, i + 1, True))
              else (0, 1, False))"

definition numArgs :: int where
  "numArgs = 0"

text \<open>
  \<^verbatim>\<open>argNumber\<close>: the rest of the format, whether an index was found, and the flag
  \<^verbatim>\<open>goodArgNum\<close> of the printer.
\<close>

definition argNumber :: "string \<Rightarrow> bool \<Rightarrow> string \<times> bool \<times> bool" where
  "argNumber format goodArgNum =
     (case format of
        [] \<Rightarrow> (format, False, goodArgNum)
      | c # _ \<Rightarrow>
          if c \<noteq> CHR ''['' then (format, False, goodArgNum)
          else (case parseArgNumber format of
                  (index, wid, ok) \<Rightarrow>
                    if ok \<and> 0 \<le> index \<and> index < numArgs
                    then (drop wid format, True, goodArgNum)
                    else (drop wid format, ok, False)))"

definition is_flag :: "char \<Rightarrow> bool" where
  "is_flag c = (c \<in> set ''#0+- '')"

definition percentBangString :: string where "percentBangString = ''%!''"
definition missingString :: string where "missingString = ''(MISSING)''"
definition badIndexString :: string where "badIndexString = ''(BADINDEX)''"
definition noVerbString :: string where "noVerbString = ''%!(NOVERB)''"
definition badWidthString :: string where "badWidthString = ''%!(BADWIDTH)''"
definition badPrecString :: string where "badPrecString = ''%!(BADPREC)''"

text \<open>
  The verb is one rune. \<^verbatim>\<open>utf8.DecodeRuneInString\<close> reads it and \<^verbatim>\<open>writeRune\<close> prints
  it: a well-formed encoding is printed as it stands, anything else is one byte read and
  U+FFFD printed. \<open>utf8_first\<close> is the table \<^verbatim>\<open>first\<close> with \<^verbatim>\<open>acceptRanges\<close>: the length
  of the encoding a first byte announces and the range of its second byte.
\<close>

definition RuneError :: string where
  "RuneError = [CHR 0xEF, CHR 0xBF, CHR 0xBD]"

definition utf8_first :: "nat \<Rightarrow> (nat \<times> nat \<times> nat) option" where
  "utf8_first b =
     (if 0xC2 \<le> b \<and> b \<le> 0xDF then Some (2, 0x80, 0xBF)
      else if b = 0xE0 then Some (3, 0xA0, 0xBF)
      else if 0xE1 \<le> b \<and> b \<le> 0xEC then Some (3, 0x80, 0xBF)
      else if b = 0xED then Some (3, 0x80, 0x9F)
      else if 0xEE \<le> b \<and> b \<le> 0xEF then Some (3, 0x80, 0xBF)
      else if b = 0xF0 then Some (4, 0x90, 0xBF)
      else if 0xF1 \<le> b \<and> b \<le> 0xF3 then Some (4, 0x80, 0xBF)
      else if b = 0xF4 then Some (4, 0x80, 0x8F)
      else None)"

definition DecodeRuneInString :: "string \<Rightarrow> string \<times> nat" where
  "DecodeRuneInString s =
     (case s of
        [] \<Rightarrow> (RuneError, 0)
      | s0 # _ \<Rightarrow>
          if byte_of s0 < 0x80 then ([s0], 1)
          else (case utf8_first (byte_of s0) of
                  None \<Rightarrow> (RuneError, 1)
                | Some (sz, lo, hi) \<Rightarrow>
                    if length s < sz then (RuneError, 1)
                    else if byte_of (s ! 1) < lo \<or> hi < byte_of (s ! 1) then (RuneError, 1)
                    else if list_ex (\<lambda>c. byte_of c < 0x80 \<or> 0xBF < byte_of c) (drop 2 (take sz s))
                         then (RuneError, 1)
                    else (take sz s, sz)))"

definition missingArg :: "string \<Rightarrow> string" where
  "missingArg verb = percentBangString @ verb @ missingString"

definition badArgNum :: "string \<Rightarrow> string" where
  "badArgNum verb = percentBangString @ verb @ badIndexString"

text \<open>
  The width and the precision of one verb: what is printed, the rest of the format,
  \<^verbatim>\<open>afterIndex\<close> and \<^verbatim>\<open>goodArgNum\<close>. A precision is read only when a byte follows the
  dot (\<^verbatim>\<open>i+1 < end\<close>): a dot that ends the format is the verb.
\<close>

definition doWidth :: "string \<Rightarrow> bool \<Rightarrow> bool \<Rightarrow> string \<times> string \<times> bool \<times> bool" where
  "doWidth s afterIndex goodArgNum =
     (if s \<noteq> [] \<and> hd s = CHR ''*'' then (badWidthString, tl s, False, goodArgNum)
      else (case parsenum s of
              (wid, widPresent, s') \<Rightarrow>
                ([], s', afterIndex, if afterIndex \<and> widPresent then False else goodArgNum)))"

definition doPrec :: "string \<Rightarrow> bool \<Rightarrow> bool \<Rightarrow> string \<times> string \<times> bool \<times> bool" where
  "doPrec s afterIndex goodArgNum =
     (if s \<noteq> [] \<and> hd s = CHR ''.'' \<and> tl s \<noteq> []
      then (case argNumber (tl s) (if afterIndex then False else goodArgNum) of
              (s', afterIndex', goodArgNum') \<Rightarrow>
                if s' \<noteq> [] \<and> hd s' = CHR ''*''
                then (badPrecString, tl s', False, goodArgNum')
                else (case parsenum s' of
                        (prec, precPresent, s'') \<Rightarrow> ([], s'', afterIndex', goodArgNum')))
      else ([], s, afterIndex, goodArgNum))"

text \<open>
  One verb, from the byte after the percent sign: what is printed and the rest of the
  format.
\<close>

definition doVerb :: "string \<Rightarrow> string \<times> string" where
  "doVerb s0 =
     (case argNumber (dropWhile is_flag s0) True of
        (s1, afterIndex1, good1) \<Rightarrow>
     (case doWidth s1 afterIndex1 good1 of
        (w_out, s2, afterIndex2, good2) \<Rightarrow>
     (case doPrec s2 afterIndex2 good2 of
        (p_out, s3, afterIndex3, good3) \<Rightarrow>
     (case (if \<not> afterIndex3 then argNumber s3 good3 else (s3, afterIndex3, good3)) of
        (s4, afterIndex4, good4) \<Rightarrow>
          if s4 = [] then (w_out @ p_out @ noVerbString, [])
          else (case DecodeRuneInString s4 of
                  (verb, n) \<Rightarrow>
                    (w_out @ p_out @
                       (if verb = ''%'' then ''%''
                        else if \<not> good4 then badArgNum verb
                        else missingArg verb),
                     drop n s4))))))"

function doPrintf :: "string \<Rightarrow> string" where
  "doPrintf format =
     (case dropWhile (\<lambda>c. c \<noteq> CHR ''%'') format of
        [] \<Rightarrow> format
      | _ # rest \<Rightarrow>
          takeWhile (\<lambda>c. c \<noteq> CHR ''%'') format @
          (case doVerb rest of (out, rest') \<Rightarrow> out @ doPrintf rest'))"
  by pat_completeness auto

text \<open>
  \<^verbatim>\<open>fmt.Errorf\<close> wraps the text in a newly allocated \<^verbatim>\<open>*errors.errorString\<close>: with no
  operand there is no error for \<^verbatim>\<open>%w\<close> to wrap.
\<close>

definition Errorf :: "string \<Rightarrow> go_error" where
  "Errorf format =
     \<lparr>dyn_type = GoType ''*errors.errorString'' True, repr = Fresh,
      Error = Returns (doPrintf format)\<rparr>"

subsection \<open>runtime.Caller and strings.Contains\<close>

text \<open>
  The call stack is the list of the source files of its frames, innermost first:
  \<^verbatim>\<open>runtime.Caller(skip)\<close> reports frame \<^verbatim>\<open>skip\<close> and whether there is one. A skip count is
  a number of frames, a natural number.
\<close>

definition Caller :: "string list \<Rightarrow> nat \<Rightarrow> string \<times> bool" where
  "Caller stack skip = (if skip < length stack then (stack ! skip, True) else ([], False))"

fun HasPrefix :: "string \<Rightarrow> string \<Rightarrow> bool" where
  "HasPrefix s [] = True"
| "HasPrefix [] (p # ps) = False"
| "HasPrefix (c # cs) (p # ps) = (c = p \<and> HasPrefix cs ps)"

fun Contains :: "string \<Rightarrow> string \<Rightarrow> bool" where
  "Contains [] substr = (substr = [])"
| "Contains (c # cs) substr = (HasPrefix (c # cs) substr \<or> Contains cs substr)"

subsection \<open>rollbar-go: the client and the calls made on it\<close>

datatype rollbar_level = CRIT | ERR | WARN | INFO | DEBUG

record Client =
  token :: string
  environment :: string

definition NewSync :: "string \<Rightarrow> string \<Rightarrow> Client" where
  "NewSync tok env = \<lparr>token = tok, environment = env\<rparr>"

text \<open>
  What a call of \<^verbatim>\<open>Fire\<close> does to the outside is a sequence of calls, in the order they
  are made: of the two predicates configured on the hook, and of the two reporting
  methods of the client.
\<close>

datatype event =
    CallIgnoreErrorFunc go_error
  | CallIgnoreFunc go_error "string \<rightharpoonup> string"
  | ErrorWithStackSkipWithExtras rollbar_level go_error nat "string \<rightharpoonup> string"
  | MessageWithExtras rollbar_level string "string \<rightharpoonup> string"

fun is_client_call :: "event \<Rightarrow> bool" where
  "is_client_call (CallIgnoreErrorFunc _) = False"
| "is_client_call (CallIgnoreFunc _ _) = False"
| "is_client_call (ErrorWithStackSkipWithExtras _ _ _ _) = True"
| "is_client_call (MessageWithExtras _ _ _) = True"

definition client_calls :: "event list \<Rightarrow> event list" where
  "client_calls evs = filter is_client_call evs"

subsection \<open>The hook and its options\<close>

definition defaultTriggerLevels :: "Level list" where
  "defaultTriggerLevels = [ErrorLevel, FatalLevel, PanicLevel]"

text \<open>
  \<^verbatim>\<open>type Hook struct\<close>. An entry of \<^verbatim>\<open>ignoredErrors\<close> is an \<^verbatim>\<open>error\<close> and may be the nil
  interface (\<open>None\<close>). The two predicates are taken to be functions that return.
\<close>

record Hook =
  Client :: Client
  triggers :: "Level slice"
  ignoredErrors :: "go_error option list"
  ignoreErrorFunc :: "go_error \<Rightarrow> bool"
  ignoreFunc :: "go_error \<Rightarrow> (string \<rightharpoonup> string) \<Rightarrow> bool"
  reported :: bool

type_synonym OptionFunc = "Hook \<Rightarrow> Hook"

definition wellKnownErrorFields :: "string list" where
  "wellKnownErrorFields = [ErrorKey, ''err'']"

definition WithLevels :: "Level slice \<Rightarrow> OptionFunc" where
  "WithLevels levels = (\<lambda>h. h\<lparr>triggers := levels\<rparr>)"

text \<open>The loop of \<^verbatim>\<open>WithMinLevel\<close> over \<^verbatim>\<open>logrus.AllLevels\<close>.\<close>

fun minLevel_loop :: "Level list \<Rightarrow> Level \<Rightarrow> Level slice \<Rightarrow> Level slice" where
  "minLevel_loop [] level levels = levels"
| "minLevel_loop (l # ls) level levels =
     minLevel_loop ls level (if l \<le> level then append1 levels l else levels)"

definition WithMinLevel :: "Level \<Rightarrow> OptionFunc" where
  "WithMinLevel level =
     (let levels = minLevel_loop AllLevels level None
      in (\<lambda>h. h\<lparr>triggers := levels\<rparr>))"

definition WithIgnoredErrors :: "go_error option list \<Rightarrow> OptionFunc" where
  "WithIgnoredErrors errors = (\<lambda>h. h\<lparr>ignoredErrors := ignoredErrors h @ errors\<rparr>)"

definition WithIgnoreErrorFunc :: "(go_error \<Rightarrow> bool) \<Rightarrow> OptionFunc" where
  "WithIgnoreErrorFunc fn = (\<lambda>h. h\<lparr>ignoreErrorFunc := fn\<rparr>)"

definition WithIgnoreFunc :: "(go_error \<Rightarrow> (string \<rightharpoonup> string) \<Rightarrow> bool) \<Rightarrow> OptionFunc" where
  "WithIgnoreFunc fn = (\<lambda>h. h\<lparr>ignoreFunc := fn\<rparr>)"

definition NewHookForLevels :: "string \<Rightarrow> string \<Rightarrow> Level slice \<Rightarrow> Hook" where
  "NewHookForLevels tok env levels =
     \<lparr>Client = NewSync tok env,
      triggers = levels,
      ignoredErrors = [],
      ignoreErrorFunc = (\<lambda>_. False),
      ignoreFunc = (\<lambda>_ _. False),
      reported = False\<rparr>"

fun apply_opts :: "Hook \<Rightarrow> OptionFunc list \<Rightarrow> Hook" where
  "apply_opts h [] = h"
| "apply_opts h (opt # opts) = apply_opts (opt h) opts"

definition NewHook :: "string \<Rightarrow> string \<Rightarrow> OptionFunc list \<Rightarrow> Hook" where
  "NewHook tok env opts =
     (let h = NewHookForLevels tok env (Some defaultTriggerLevels)
      in apply_opts h opts)"

definition Levels :: "Hook \<Rightarrow> Level list" where
  "Levels r = (if triggers r = None then defaultTriggerLevels else elems (triggers r))"

text \<open>
  The five options the package offers, as data, so that a statement can range over the
  sequences of options a caller can pass to \<^verbatim>\<open>NewHook\<close>.
\<close>

datatype option_call =
    CallWithLevels "Level slice"
  | CallWithMinLevel Level
  | CallWithIgnoredErrors "go_error option list"
  | CallWithIgnoreErrorFunc "go_error \<Rightarrow> bool"
  | CallWithIgnoreFunc "go_error \<Rightarrow> (string \<rightharpoonup> string) \<Rightarrow> bool"

fun option_of :: "option_call \<Rightarrow> OptionFunc" where
  "option_of (CallWithLevels levels) = WithLevels levels"
| "option_of (CallWithMinLevel level) = WithMinLevel level"
| "option_of (CallWithIgnoredErrors errors) = WithIgnoredErrors errors"
| "option_of (CallWithIgnoreErrorFunc fn) = WithIgnoreErrorFunc fn"
| "option_of (CallWithIgnoreFunc fn) = WithIgnoreFunc fn"

subsection \<open>extractError, convertFields and framesToSkip\<close>

text \<open>
  The loop of \<^verbatim>\<open>extractError\<close> over the field names: \<open>None\<close> when it runs to its end
  without returning.
\<close>

fun extractError_loop :: "string list \<Rightarrow> Entry \<Rightarrow> go_error option" where
  "extractError_loop [] entry = None"
| "extractError_loop (f # fs) entry =
     (case Data entry f of
        None \<Rightarrow> extractError_loop fs entry
      | Some e \<Rightarrow>
          (case as_error e of
             None \<Rightarrow> extractError_loop fs entry
           | Some err \<Rightarrow> Some err))"

definition extractError :: "Entry \<Rightarrow> go_error" where
  "extractError entry =
     (case extractError_loop wellKnownErrorFields entry of
        Some err \<Rightarrow> err
      | None \<Rightarrow> Errorf (Message entry))"

text \<open>
  The type switch of \<^verbatim>\<open>convertFields\<close> on one value, in the order of its cases: the text
  stored for the value, or the panic of the call \<^verbatim>\<open>t.Error()\<close> or \<^verbatim>\<open>s.String()\<close>.
\<close>

definition convertValue :: "go_value \<Rightarrow> call_result" where
  "convertValue v =
     (case as_time v of
        Some t \<Rightarrow> Returns (Format_RFC3339 t)
      | None \<Rightarrow>
          (case as_error v of
             Some t \<Rightarrow> Error t
           | None \<Rightarrow>
               (case as_stringer v of
                  Some s \<Rightarrow> s
                | None \<Rightarrow> Returns (sprintf_plus_v v))))"


definition convertFields :: "Fields \<Rightarrow> go_panic + (string \<rightharpoonup> string)" where
  "convertFields flds =
     (if \<exists>k v. flds k = Some v \<and> convertValue v = Panics then Inl MethodPanic
      else Inr (\<lambda>k. case flds k of
                       None \<Rightarrow> None
                     | Some v \<Rightarrow> (case convertValue v of Returns s \<Rightarrow> Some s | Panics \<Rightarrow> None)))"

text \<open>
  The loop of \<^verbatim>\<open>framesToSkip\<close>: it ends at the first \<^verbatim>\<open>i\<close> with no frame or with a frame
  outside logrus.
\<close>

function framesToSkip_loop :: "string list \<Rightarrow> nat \<Rightarrow> nat" where
  "framesToSkip_loop stack i =
     (case Caller stack i of
        (file, ok) \<Rightarrow>
          if \<not> ok \<or> \<not> Contains file ''github.com/sirupsen/logrus'' then i
          else framesToSkip_loop stack (i + 1))"
  by pat_completeness auto
termination
  by (relation "measure (\<lambda>(stack, i). length stack - i)")
     (auto simp: Caller_def split: if_splits)

definition framesToSkip :: "string list \<Rightarrow> nat \<Rightarrow> nat" where
  "framesToSkip stack rollrusSkip =
     (let skip = rollrusSkip + 1;
          skip = framesToSkip_loop stack skip
      in skip + 2 - 1)"

subsection \<open>Fire and report\<close>

text \<open>
  \<^verbatim>\<open>ie == cause\<close> compares two values of interface type \<^verbatim>\<open>error\<close>: a nil interface differs
  from the cause, values of different dynamic types differ, values of one type that is
  not comparable make the comparison panic, and values of one comparable type are compared
  (the section of the language specification that the comment on \<^verbatim>\<open>WithIgnoredErrors\<close>
  points to).
\<close>

definition interface_eq :: "go_error option \<Rightarrow> go_error \<Rightarrow> go_panic + bool" where
  "interface_eq ie cause =
     (case ie of
        None \<Rightarrow> Inr False
      | Some e \<Rightarrow>
          if dyn_type e \<noteq> dyn_type cause then Inr False
          else if \<not> comparable (dyn_type e) then Inl (UncomparableType (dyn_type e))
          else data_eq (repr e) (repr cause))"

text \<open>
  The loop of \<^verbatim>\<open>Fire\<close> over \<^verbatim>\<open>r.ignoredErrors\<close>: \<open>Inr True\<close> when it returns from
  \<^verbatim>\<open>Fire\<close>, \<open>Inr False\<close> when it runs to its end.
\<close>

fun ignoredErrors_loop :: "go_error option list \<Rightarrow> go_error \<Rightarrow> go_panic + bool" where
  "ignoredErrors_loop [] cause = Inr False"
| "ignoredErrors_loop (ie # ies) cause =
     (case interface_eq ie cause of
        Inl p \<Rightarrow> Inl p
      | Inr True \<Rightarrow> Inr True
      | Inr False \<Rightarrow> ignoredErrors_loop ies cause)"

text \<open>
  \<^verbatim>\<open>report\<close>, called from \<^verbatim>\<open>Fire\<close>. \<open>stack\<close> is the call stack as \<^verbatim>\<open>framesToSkip\<close> sees it
  when \<^verbatim>\<open>report\<close> calls it: frame 0 is \<^verbatim>\<open>framesToSkip\<close>, frame 1 \<^verbatim>\<open>report\<close>, frame 2
  \<^verbatim>\<open>Fire\<close>, and the callers of \<^verbatim>\<open>Fire\<close> follow. The result is the hook after the call and
  the calls made on the client.
\<close>

definition report ::
  "Hook \<Rightarrow> string list \<Rightarrow> Entry \<Rightarrow> go_error \<Rightarrow> (string \<rightharpoonup> string) \<Rightarrow> Hook \<times> event list" where
  "report r stack entry cause m =
     (let level = Level entry;
          r = r\<lparr>reported := True\<rparr>
      in if level = FatalLevel \<or> level = PanicLevel then
           (let skip = framesToSkip stack 2
            in (r, [ErrorWithStackSkipWithExtras CRIT cause skip m]))
         else if level = ErrorLevel then
           (let skip = framesToSkip stack 2
            in (r, [ErrorWithStackSkipWithExtras ERR cause skip m]))
         else if level = WarnLevel then
           (let skip = framesToSkip stack 2
            in (r, [ErrorWithStackSkipWithExtras WARN cause skip m]))
         else if level = InfoLevel then
           (r, [MessageWithExtras INFO (Message entry) m])
         else if level = DebugLevel then
           (r, [MessageWithExtras DEBUG (Message entry) m])
         else (r, []))"

text \<open>
  The map \<^verbatim>\<open>m\<close> of \<^verbatim>\<open>Fire\<close>, as it stands after the two \<^verbatim>\<open>if\<close> statements that add
  \<^verbatim>\<open>time\<close> and \<^verbatim>\<open>msg\<close>, or the panic of \<^verbatim>\<open>convertFields\<close>.
\<close>

definition Fire_fields :: "Entry \<Rightarrow> go_panic + (string \<rightharpoonup> string)" where
  "Fire_fields entry =
     (case convertFields (Data entry) of
        Inl p \<Rightarrow> Inl p
      | Inr m \<Rightarrow>
          (let m = (if m ''time'' = None then m(''time'' \<mapsto> Format_RFC3339 (Time entry)) else m);
               m = (if m ''msg'' = None \<and> Message entry \<noteq> [] then m(''msg'' \<mapsto> Message entry)
                    else m)
           in Inr m))"

text \<open>
  \<^verbatim>\<open>Fire\<close>: a panic with the calls made before it, or the error returned (\<open>None\<close> is
  \<^verbatim>\<open>nil\<close>), the hook after the call and the calls made, in order.
\<close>

definition Fire ::
  "Hook \<Rightarrow> string list \<Rightarrow> Entry \<Rightarrow>
     (go_panic \<times> event list) + (go_error option \<times> Hook \<times> event list)" where
  "Fire r stack entry =
     (let cause = extractError entry
      in case ignoredErrors_loop (ignoredErrors r) cause of
           Inl p \<Rightarrow> Inl (p, [])
         | Inr True \<Rightarrow> Inr (None, r, [])
         | Inr False \<Rightarrow>
             if ignoreErrorFunc r cause then Inr (None, r, [CallIgnoreErrorFunc cause])
             else
               (case Fire_fields entry of
                  Inl p \<Rightarrow> Inl (p, [CallIgnoreErrorFunc cause])
                | Inr m \<Rightarrow>
                    if ignoreFunc r cause m
                    then Inr (None, r, [CallIgnoreErrorFunc cause, CallIgnoreFunc cause m])
                    else
                      (case report r stack entry cause m of
                         (r', calls) \<Rightarrow>
                           Inr (None, r',
                                [CallIgnoreErrorFunc cause, CallIgnoreFunc cause m] @ calls))))"

text \<open>
  What a caller can observe of one call of \<^verbatim>\<open>Fire\<close> on the hook \<open>r\<close>: the hook after the
  call, and the calls made on the client. A panic (of the comparison in the first loop,
  or of \<^verbatim>\<open>convertFields\<close>) comes before any assignment to the hook and before any call on
  the client.
\<close>

definition Fire_hook :: "Hook \<Rightarrow> string list \<Rightarrow> Entry \<Rightarrow> Hook" where
  "Fire_hook r stack entry =
     (case Fire r stack entry of
        Inl p \<Rightarrow> r
      | Inr (err, r', evs) \<Rightarrow> r')"

definition Fire_client_calls :: "Hook \<Rightarrow> string list \<Rightarrow> Entry \<Rightarrow> event list" where
  "Fire_client_calls r stack entry =
     (case Fire r stack entry of
        Inl (p, evs) \<Rightarrow> client_calls evs
      | Inr (err, r', evs) \<Rightarrow> client_calls evs)"

text \<open>
  An entry passes the filters of \<^verbatim>\<open>Fire\<close> when none of its three stages returns: the loop
  over the ignored errors runs to its end and both predicates return false (the second
  on the fields, so the fields have been converted).
\<close>

definition passes_filters :: "Hook \<Rightarrow> Entry \<Rightarrow> bool" where
  "passes_filters r entry =
     (ignoredErrors_loop (ignoredErrors r) (extractError entry) = Inr False \<and>
      \<not> ignoreErrorFunc r (extractError entry) \<and>
      (case Fire_fields entry of
         Inl p \<Rightarrow> False
       | Inr m \<Rightarrow> \<not> ignoreFunc r (extractError entry) m))"

subsection \<open>Inputs for the examples\<close>

text \<open>
  A call stack with the three frames of the hook, three frames of logrus and a frame of
  the application, and one that ends inside logrus.
\<close>

definition example_stack :: "string list" where
  "example_stack =
     [''/go/src/github.com/heroku/rollrus/rollrus.go'',
      ''/go/src/github.com/heroku/rollrus/rollrus.go'',
      ''/go/src/github.com/heroku/rollrus/rollrus.go'',
      ''/go/src/github.com/sirupsen/logrus/hooks.go'',
      ''/go/src/github.com/sirupsen/logrus/entry.go'',
      ''/go/src/github.com/sirupsen/logrus/entry.go'',
      ''/go/src/app/main.go'']"

definition exhausted_stack :: "string list" where
  "exhausted_stack =
     [''/go/src/github.com/heroku/rollrus/rollrus.go'',
      ''/go/src/github.com/heroku/rollrus/rollrus.go'',
      ''/go/src/github.com/heroku/rollrus/rollrus.go'',
      ''/go/src/github.com/sirupsen/logrus/hooks.go'',
      ''/go/src/github.com/sirupsen/logrus/entry.go'']"

definition example_time :: go_time where
  "example_time = GoTime ''2019-05-14T09:30:00Z''"

text \<open>
  Error values. \<open>errX\<close> was made with \<^verbatim>\<open>errors.New\<close> before the call and is compared by
  its address. \<open>multiErr1\<close> and \<open>multiErr2\<close> are of a slice type with an \<^verbatim>\<open>Error()\<close>
  method, a type that is not comparable. \<open>wrapErr1\<close> and \<open>wrapErr2\<close> are of a struct type
  \<^verbatim>\<open>struct{ Code int; Detail interface{} }\<close> with an \<^verbatim>\<open>Error()\<close> method, a comparable type;
  their codes are equal and their details are slices. \<open>nanErr\<close> is of a type
  \<^verbatim>\<open>type Ratio float64\<close> with an \<^verbatim>\<open>Error()\<close> method and is not a number.
\<close>

definition errX :: go_error where
  "errX = \<lparr>dyn_type = GoType ''*errors.errorString'' True, repr = Word 1,
           Error = Returns ''connection reset''\<rparr>"

definition multiErr1 :: go_error where
  "multiErr1 = \<lparr>dyn_type = GoType ''app.MultiError'' False, repr = Word 2,
                Error = Returns ''2 errors''\<rparr>"

definition multiErr2 :: go_error where
  "multiErr2 = \<lparr>dyn_type = GoType ''app.MultiError'' False, repr = Word 3,
                Error = Returns ''3 errors''\<rparr>"

definition wrapErr1 :: go_error where
  "wrapErr1 = \<lparr>dyn_type = GoType ''app.WrapError'' True,
               repr = Fields [Word 7, Iface (GoType ''[]string'' False) (Word 4)],
               Error = Returns ''wrapped''\<rparr>"

definition wrapErr2 :: go_error where
  "wrapErr2 = \<lparr>dyn_type = GoType ''app.WrapError'' True,
               repr = Fields [Word 7, Iface (GoType ''[]string'' False) (Word 5)],
               Error = Returns ''wrapped''\<rparr>"

definition nanErr :: go_error where
  "nanErr = \<lparr>dyn_type = GoType ''app.Ratio'' True, repr = NaN, Error = Returns ''NaN''\<rparr>"

text \<open>
  Field values: one holding an error, one with none of the capabilities, and a nil
  pointer of type \<^verbatim>\<open>*time.Time\<close>, which is no \<^verbatim>\<open>time.Time\<close> and no error, has the method
  \<^verbatim>\<open>String()\<close> of \<^verbatim>\<open>time.Time\<close>, and panics when that method is called.
\<close>

definition error_value :: "go_error \<Rightarrow> go_value" where
  "error_value e =
     \<lparr>as_time = None, as_error = Some e, as_stringer = None,
      sprintf_plus_v = (case Error e of Returns s \<Rightarrow> s | Panics \<Rightarrow> ''<nil>'')\<rparr>"

definition plain_value :: "string \<Rightarrow> go_value" where
  "plain_value s = \<lparr>as_time = None, as_error = None, as_stringer = None, sprintf_plus_v = s\<rparr>"

definition nil_time_pointer :: go_value where
  "nil_time_pointer =
     \<lparr>as_time = None, as_error = None, as_stringer = Some Panics, sprintf_plus_v = ''<nil>''\<rparr>"


text \<open>
  The hook \<^verbatim>\<open>NewHook\<close> builds with no option, and one built with
  \<^verbatim>\<open>WithIgnoredErrors(errX)\<close>.
\<close>

definition default_hook :: Hook where
  "default_hook = NewHook ''token'' ''production'' []"

definition ignoring_hook :: Hook where
  "ignoring_hook = NewHook ''token'' ''production'' [WithIgnoredErrors [Some errX]]"

definition example_entry :: "Level \<Rightarrow> string \<Rightarrow> Fields \<Rightarrow> Entry" where
  "example_entry level msg flds = \<lparr>Level = level, Message = msg, Time = example_time, Data = flds\<rparr>"

section \<open>Properties\<close>

subsection \<open>The formatter returns\<close>

lemma parsenum_loop_length: "length (snd (snd (parsenum_loop n b s))) \<le> length s"
  by (induction n b s rule: parsenum_loop.induct) auto

lemma parsenum_length: "parsenum s = (n, b, r) \<Longrightarrow> length r \<le> length s"
  using parsenum_loop_length [of 0 False s] by (auto simp: parsenum_def split: if_splits)

lemma argNumber_length: "argNumber s g = (r, f, g') \<Longrightarrow> length r \<le> length s"
  by (auto simp: argNumber_def split: list.splits if_splits prod.splits)

lemma doWidth_length: "doWidth s a g = (out, r, a', g') \<Longrightarrow> length r \<le> length s"
  by (auto simp: doWidth_def split: if_splits prod.splits dest: parsenum_length)

lemma doPrec_length:
  assumes "doPrec s a g = (out, r, a', g')"
  shows "length r \<le> length s"
proof (cases "s \<noteq> [] \<and> hd s = CHR ''.'' \<and> tl s \<noteq> []")
  case False
  with assms show ?thesis by (auto simp: doPrec_def)
next
  case True
  obtain s' b h where arg: "argNumber (tl s) (if a then False else g) = (s', b, h)"
    by (cases "argNumber (tl s) (if a then False else g)") auto
  have le: "length s' \<le> length (tl s)" using argNumber_length [OF arg] .
  show ?thesis
  proof (cases "s' \<noteq> [] \<and> hd s' = CHR ''*''")
    case star: True
    with True arg assms have "r = tl s'" by (auto simp: doPrec_def)
    with le show ?thesis by simp
  next
    case nostar: False
    obtain p pp s'' where pn: "parsenum s' = (p, pp, s'')" by (cases "parsenum s'") auto
    with True arg assms nostar have "r = s''" by (auto simp: doPrec_def)
    with parsenum_length [OF pn] le show ?thesis by simp
  qed
qed

lemma doVerb_length:
  assumes "doVerb s = (out, r)"
  shows "length r \<le> length s"
proof -
  obtain s1 a1 g1 where 1: "argNumber (dropWhile is_flag s) True = (s1, a1, g1)"
    by (cases "argNumber (dropWhile is_flag s) True") auto
  obtain w s2 a2 g2 where 2: "doWidth s1 a1 g1 = (w, s2, a2, g2)"
    by (cases "doWidth s1 a1 g1") auto
  obtain p s3 a3 g3 where 3: "doPrec s2 a2 g2 = (p, s3, a3, g3)"
    by (cases "doPrec s2 a2 g2") auto
  obtain s4 a4 g4 where 4: "(if \<not> a3 then argNumber s3 g3 else (s3, a3, g3)) = (s4, a4, g4)"
    by (cases "if \<not> a3 then argNumber s3 g3 else (s3, a3, g3)") auto
  have "length s1 \<le> length (dropWhile is_flag s)" using argNumber_length [OF 1] .
  also have "\<dots> \<le> length s" by (rule length_dropWhile_le)
  finally have l1: "length s1 \<le> length s" .
  have l2: "length s2 \<le> length s1" using doWidth_length [OF 2] .
  have l3: "length s3 \<le> length s2" using doPrec_length [OF 3] .
  have l4: "length s4 \<le> length s3"
    using 4 by (auto split: if_splits dest: argNumber_length)
  have "length r \<le> length s4"
    using assms 1 2 3 4 by (auto simp: doVerb_def split: if_splits prod.splits)
  with l1 l2 l3 l4 show ?thesis by linarith
qed

termination doPrintf
proof (relation "measure length")
  show "wf (measure length)" by simp
next
  fix format :: string and x21 x22 x y
  assume a: "dropWhile (\<lambda>c. c \<noteq> CHR ''%'') format = x21 # x22" and b: "(x, y) = doVerb x22"
  have "length (dropWhile (\<lambda>c. c \<noteq> CHR ''%'') format) \<le> length format"
    by (rule length_dropWhile_le)
  with a have "length x22 < length format" by simp
  moreover from b have "length y \<le> length x22" using doVerb_length [of x22 x y] by simp
  ultimately show "(y, format) \<in> measure length" by simp
qed

subsection \<open>Trigger levels\<close>

lemmas level_defs =
  PanicLevel_def FatalLevel_def ErrorLevel_def WarnLevel_def InfoLevel_def DebugLevel_def
  TraceLevel_def

lemma minLevel_loop_Some:
  "minLevel_loop ls level (Some acc) = Some (acc @ filter (\<lambda>l. l \<le> level) ls)"
  by (induction ls arbitrary: acc) auto

lemma minLevel_loop_AllLevels:
  "minLevel_loop AllLevels level None = Some (filter (\<lambda>l. l \<le> level) AllLevels)"
  by (simp add: AllLevels_def PanicLevel_def minLevel_loop_Some)

text \<open>
  Claim C7. For every level \<open>L\<close>, the option \<^verbatim>\<open>WithMinLevel(L)\<close> sets the triggers of the
  hook, and nothing else, to the levels \<open>l\<close> of \<^verbatim>\<open>logrus.AllLevels\<close> with \<open>l \<le> L\<close>, in the
  order of \<^verbatim>\<open>AllLevels\<close>: the comparison of the code keeps \<open>L\<close> itself, when \<open>L\<close> is one of
  the levels of \<^verbatim>\<open>AllLevels\<close>, and every level that is more severe, that is numerically
  smaller. \<^verbatim>\<open>Levels()\<close> then reports exactly these.
\<close>

theorem WithMinLevel_triggers:
  "WithMinLevel level h = h\<lparr>triggers := Some (filter (\<lambda>l. l \<le> level) AllLevels)\<rparr> \<and>
   Levels (WithMinLevel level h) = filter (\<lambda>l. l \<le> level) AllLevels \<and>
   set (Levels (WithMinLevel level h)) = {l \<in> set AllLevels. l < level \<or> l = level} \<and>
   (level \<in> set AllLevels \<longrightarrow> level \<in> set (Levels (WithMinLevel level h)))"
  by (auto simp: WithMinLevel_def minLevel_loop_AllLevels Levels_def)

text \<open>
  The statement on C7 at the level Warning: the triggers are Panic, Fatal, Error and
  Warning, in this order, on whatever hook the option is applied.
\<close>

theorem WithMinLevel_triggers_witness:
  "Levels (WithMinLevel WarnLevel default_hook) = [PanicLevel, FatalLevel, ErrorLevel, WarnLevel] \<and>
   WarnLevel \<in> set (Levels (WithMinLevel WarnLevel default_hook))"
proof -
  have m: "WarnLevel \<in> set AllLevels" by (simp add: AllLevels_def)
  have f: "filter (\<lambda>l. l \<le> WarnLevel) AllLevels = [PanicLevel, FatalLevel, ErrorLevel, WarnLevel]"
    by (simp add: AllLevels_def level_defs)
  note a = WithMinLevel_triggers [of WarnLevel default_hook]
  from a f have 1:
    "Levels (WithMinLevel WarnLevel default_hook) = [PanicLevel, FatalLevel, ErrorLevel, WarnLevel]"
    by (elim conjE) (simp only:)
  from a m have 2: "WarnLevel \<in> set (Levels (WithMinLevel WarnLevel default_hook))"
    by blast
  from 1 2 show ?thesis by (intro conjI)
qed

lemma option_of_keeps_nonempty:
  assumes "c \<noteq> CallWithLevels (Some [])" and "triggers h \<noteq> Some []"
  shows "triggers (option_of c h) \<noteq> Some []"
proof (cases c)
  case (CallWithLevels ls)
  with assms show ?thesis by (simp add: WithLevels_def)
next
  case (CallWithMinLevel l)
  then show ?thesis
    by (simp add: WithMinLevel_def minLevel_loop_AllLevels AllLevels_def PanicLevel_def)
next
  case (CallWithIgnoredErrors es)
  with assms show ?thesis by (simp add: WithIgnoredErrors_def)
next
  case (CallWithIgnoreErrorFunc f)
  with assms show ?thesis by (simp add: WithIgnoreErrorFunc_def)
next
  case (CallWithIgnoreFunc f)
  with assms show ?thesis by (simp add: WithIgnoreFunc_def)
qed

lemma apply_opts_keeps_nonempty:
  "CallWithLevels (Some []) \<notin> set cs \<Longrightarrow> triggers h \<noteq> Some [] \<Longrightarrow>
   triggers (apply_opts h (map option_of cs)) \<noteq> Some []"
proof (induction cs arbitrary: h)
  case Nil
  then show ?case by simp
next
  case (Cons c cs)
  from Cons.prems have "c \<noteq> CallWithLevels (Some [])" and "CallWithLevels (Some []) \<notin> set cs"
    by auto
  moreover from this(1) Cons.prems(2) have "triggers (option_of c h) \<noteq> Some []"
    by (rule option_of_keeps_nonempty)
  ultimately have "triggers (apply_opts (option_of c h) (map option_of cs)) \<noteq> Some []"
    using Cons.IH by blast
  then show ?case by simp
qed

lemma Levels_empty_iff: "Levels r = [] \<longleftrightarrow> triggers r = Some []"
  by (cases "triggers r") (auto simp: Levels_def defaultTriggerLevels_def)

text \<open>
  Claim C8, as the code has it. \<^verbatim>\<open>Levels()\<close> returns the default set (Error, Fatal, Panic)
  whenever the triggers of the hook are unset, that is nil, and the configured triggers as
  they are otherwise. For a hook built by \<^verbatim>\<open>NewHook\<close> with any sequence of the options of the
  package the result is not empty, unless one of the options is \<^verbatim>\<open>WithLevels\<close> with a level
  list that is empty and not nil; for a hook built by \<^verbatim>\<open>NewHookForLevels\<close> it is not empty
  unless the list passed is empty and not nil.
\<close>

theorem Levels_default_or_configured:
  "(triggers r = None \<longrightarrow> Levels r = defaultTriggerLevels) \<and>
   (\<forall>ls. triggers r = Some ls \<longrightarrow> Levels r = ls) \<and>
   (CallWithLevels (Some []) \<notin> set calls \<longrightarrow>
      Levels (NewHook tok env (map option_of calls)) \<noteq> []) \<and>
   (levels \<noteq> Some [] \<longrightarrow> Levels (NewHookForLevels tok env levels) \<noteq> [])"
proof (intro conjI impI allI)
  show "triggers r = None \<Longrightarrow> Levels r = defaultTriggerLevels" by (simp add: Levels_def)
  show "\<And>ls. triggers r = Some ls \<Longrightarrow> Levels r = ls" by (simp add: Levels_def)
  show "Levels (NewHook tok env (map option_of calls)) \<noteq> []"
    if "CallWithLevels (Some []) \<notin> set calls"
  proof -
    have "triggers (NewHookForLevels tok env (Some defaultTriggerLevels)) \<noteq> Some []"
      by (simp add: NewHookForLevels_def defaultTriggerLevels_def)
    with that show ?thesis
      by (simp add: NewHook_def Levels_empty_iff apply_opts_keeps_nonempty)
  qed
  show "Levels (NewHookForLevels tok env levels) \<noteq> []" if "levels \<noteq> Some []"
    using that by (simp add: Levels_empty_iff NewHookForLevels_def)
qed

text \<open>
  Claim C8 as stated fails: \<^verbatim>\<open>Levels\<close> tests the triggers against nil only, and
  \<^verbatim>\<open>NewHook(token, env, WithLevels([]logrus.Level{}...))\<close> builds a hook whose triggers are
  an empty list that is not nil. \<^verbatim>\<open>Levels()\<close> of that hook is empty.
\<close>

theorem Levels_empty_counterexample:
  "Levels (NewHook ''token'' ''production'' [WithLevels (Some [])]) = []"
  by (simp add: NewHook_def NewHookForLevels_def WithLevels_def Levels_def)

text \<open>
  The four parts of the statement on C8 at concrete hooks: no triggers, one configured
  level, a sequence of two options, and \<^verbatim>\<open>NewHookForLevels\<close> with one level.
\<close>

theorem Levels_default_or_configured_witness:
  "Levels (NewHookForLevels ''token'' ''production'' None) = defaultTriggerLevels \<and>
   Levels (NewHookForLevels ''token'' ''production'' (Some [WarnLevel])) = [WarnLevel] \<and>
   Levels (NewHook ''token'' ''production''
             (map option_of [CallWithMinLevel WarnLevel, CallWithLevels None])) \<noteq> [] \<and>
   Levels (NewHookForLevels ''token'' ''production'' (Some [InfoLevel])) \<noteq> []"
proof -
  have 1: "triggers (NewHookForLevels ''token'' ''production'' None) = None"
    by (simp add: NewHookForLevels_def)
  have 2: "triggers (NewHookForLevels ''token'' ''production'' (Some [WarnLevel])) = Some [WarnLevel]"
    by (simp add: NewHookForLevels_def)
  have 3: "CallWithLevels (Some []) \<notin> set [CallWithMinLevel WarnLevel, CallWithLevels None]"
    by simp
  have 4: "Some [InfoLevel] \<noteq> Some []" by simp
  note a = Levels_default_or_configured
    [of "NewHookForLevels ''token'' ''production'' None" "[]" "[]" "[]" None]
  note b = Levels_default_or_configured
    [of "NewHookForLevels ''token'' ''production'' (Some [WarnLevel])"
        "[CallWithMinLevel WarnLevel, CallWithLevels None]" "''token''" "''production''"
        "Some [InfoLevel]"]
  from a 1 have c1: "Levels (NewHookForLevels ''token'' ''production'' None) = defaultTriggerLevels"
    by (elim conjE) simp
  from b 2 have c2:
    "Levels (NewHookForLevels ''token'' ''production'' (Some [WarnLevel])) = [WarnLevel]"
    by (elim conjE) simp
  from b 3 have c3:
    "Levels (NewHook ''token'' ''production''
       (map option_of [CallWithMinLevel WarnLevel, CallWithLevels None])) \<noteq> []"
    by (elim conjE) (erule mp)
  from b 4 have c4: "Levels (NewHookForLevels ''token'' ''production'' (Some [InfoLevel])) \<noteq> []"
    by (elim conjE) simp
  from c1 c2 c3 c4 show ?thesis by (intro conjI)
qed

subsection \<open>The number of frames to skip\<close>

declare doPrintf.simps [simp del]

declare framesToSkip_loop.simps [simp del]

lemma framesToSkip_loop_stop:
  "\<not> (i < length stack \<and> Contains (stack ! i) ''github.com/sirupsen/logrus'') \<Longrightarrow>
   framesToSkip_loop stack i = i"
  by (subst framesToSkip_loop.simps) (auto simp: Caller_def)

lemma framesToSkip_loop_step:
  "i < length stack \<Longrightarrow> Contains (stack ! i) ''github.com/sirupsen/logrus'' \<Longrightarrow>
   framesToSkip_loop stack i = framesToSkip_loop stack (i + 1)"
  by (subst framesToSkip_loop.simps) (simp add: Caller_def)

lemma framesToSkip_loop_iff:
  "framesToSkip_loop stack i = d \<longleftrightarrow>
     i \<le> d \<and>
     (\<forall>j. i \<le> j \<and> j < d \<longrightarrow>
          j < length stack \<and> Contains (stack ! j) ''github.com/sirupsen/logrus'') \<and>
     (d < length stack \<longrightarrow> \<not> Contains (stack ! d) ''github.com/sirupsen/logrus'')"
proof (induction stack i arbitrary: d rule: framesToSkip_loop.induct)
  case (1 stack i)
  let ?in = "\<lambda>j. j < length stack \<and> Contains (stack ! j) ''github.com/sirupsen/logrus''"
  show ?case
  proof (cases "?in i")
    case False
    then have stop: "framesToSkip_loop stack i = i" by (rule framesToSkip_loop_stop)
    show ?thesis
    proof
      assume "framesToSkip_loop stack i = d"
      with stop have "d = i" by simp
      with False show "i \<le> d \<and> (\<forall>j. i \<le> j \<and> j < d \<longrightarrow> ?in j) \<and>
          (d < length stack \<longrightarrow> \<not> Contains (stack ! d) ''github.com/sirupsen/logrus'')"
        by auto
    next
      assume r: "i \<le> d \<and> (\<forall>j. i \<le> j \<and> j < d \<longrightarrow> ?in j) \<and>
          (d < length stack \<longrightarrow> \<not> Contains (stack ! d) ''github.com/sirupsen/logrus'')"
      have "d = i"
      proof (rule ccontr)
        assume "d \<noteq> i"
        with r have "i \<le> i \<and> i < d" by simp
        with r have "?in i" by blast
        with False show False by simp
      qed
      with stop show "framesToSkip_loop stack i = d" by simp
    qed
  next
    case True
    then have step: "framesToSkip_loop stack i = framesToSkip_loop stack (i + 1)"
      by (intro framesToSkip_loop_step) simp_all
    have ih: "framesToSkip_loop stack (i + 1) = d \<longleftrightarrow>
        i + 1 \<le> d \<and> (\<forall>j. i + 1 \<le> j \<and> j < d \<longrightarrow> ?in j) \<and>
        (d < length stack \<longrightarrow> \<not> Contains (stack ! d) ''github.com/sirupsen/logrus'')"
      using True by (intro "1.IH" [of "stack ! i" True]) (simp_all add: Caller_def)
    show ?thesis
    proof
      assume "framesToSkip_loop stack i = d"
      with step ih have a: "i + 1 \<le> d" and b: "\<forall>j. i + 1 \<le> j \<and> j < d \<longrightarrow> ?in j"
        and c: "d < length stack \<longrightarrow> \<not> Contains (stack ! d) ''github.com/sirupsen/logrus''"
        by simp_all
      have "\<forall>j. i \<le> j \<and> j < d \<longrightarrow> ?in j"
      proof (intro allI impI)
        fix j assume "i \<le> j \<and> j < d"
        then consider "j = i" | "i + 1 \<le> j \<and> j < d" by linarith
        then show "?in j" using True b by cases auto
      qed
      with a c show "i \<le> d \<and> (\<forall>j. i \<le> j \<and> j < d \<longrightarrow> ?in j) \<and>
          (d < length stack \<longrightarrow> \<not> Contains (stack ! d) ''github.com/sirupsen/logrus'')"
        by simp
    next
      assume r: "i \<le> d \<and> (\<forall>j. i \<le> j \<and> j < d \<longrightarrow> ?in j) \<and>
          (d < length stack \<longrightarrow> \<not> Contains (stack ! d) ''github.com/sirupsen/logrus'')"
      have "d \<noteq> i" using r True by auto
      with r have "i + 1 \<le> d" by simp
      moreover from r have "\<forall>j. i + 1 \<le> j \<and> j < d \<longrightarrow> ?in j" by simp
      ultimately show "framesToSkip_loop stack i = d" using r step ih by simp
    qed
  qed
qed

text \<open>
  Claim C1. For every call stack and every skip count \<open>k\<close>, \<^verbatim>\<open>framesToSkip(k)\<close> returns
  \<open>d + 2 - 1\<close> for exactly one depth \<open>d\<close>: the walk starts at depth \<open>k + 1\<close>, every frame
  from there up to \<open>d\<close> exists and has a source file in the package of logrus, and the
  frame at depth \<open>d\<close> is the first one outside that package or, when the stack is
  exhausted before that, the first depth at which \<^verbatim>\<open>runtime.Caller\<close> reports no frame.
\<close>

theorem framesToSkip_first_outside:
  "framesToSkip stack k = d + 2 - 1 \<longleftrightarrow>
     k + 1 \<le> d \<and>
     (\<forall>j. k + 1 \<le> j \<and> j < d \<longrightarrow>
          j < length stack \<and> Contains (stack ! j) ''github.com/sirupsen/logrus'') \<and>
     (d < length stack \<longrightarrow> \<not> Contains (stack ! d) ''github.com/sirupsen/logrus'')"
proof -
  have "framesToSkip stack k = d + 2 - 1 \<longleftrightarrow> framesToSkip_loop stack (k + 1) = d"
    by (auto simp: framesToSkip_def Let_def)
  then show ?thesis by (simp only: framesToSkip_loop_iff)
qed

text \<open>
  The statement on C1 on a stack where \<^verbatim>\<open>Fire\<close> is reached through three frames of
  logrus (the walk stops at the frame of the application, depth 6), and on a stack that
  ends inside logrus (the walk stops at depth 5, where there is no frame).
\<close>

theorem framesToSkip_first_outside_witness:
  "framesToSkip example_stack 2 = 7 \<and> framesToSkip exhausted_stack 2 = 6"
proof -
  have a: "(2::nat) + 1 \<le> 6" by simp
  have b: "\<forall>j. (2::nat) + 1 \<le> j \<and> j < 6 \<longrightarrow>
          j < length example_stack \<and> Contains (example_stack ! j) ''github.com/sirupsen/logrus''"
  proof (intro allI impI)
    fix j :: nat assume "2 + 1 \<le> j \<and> j < 6"
    then consider "j = 3" | "j = 4" | "j = 5" by linarith
    then show "j < length example_stack \<and>
        Contains (example_stack ! j) ''github.com/sirupsen/logrus''"
      by cases (simp_all add: example_stack_def)
  qed
  have c: "6 < length example_stack \<longrightarrow>
      \<not> Contains (example_stack ! 6) ''github.com/sirupsen/logrus''"
    by (simp add: example_stack_def)
  from a b c have 1: "framesToSkip example_stack 2 = 6 + 2 - 1"
    by (simp only: framesToSkip_first_outside [of example_stack 2 6] simp_thms)
  have a': "(2::nat) + 1 \<le> 5" by simp
  have b': "\<forall>j. (2::nat) + 1 \<le> j \<and> j < 5 \<longrightarrow>
          j < length exhausted_stack \<and>
          Contains (exhausted_stack ! j) ''github.com/sirupsen/logrus''"
  proof (intro allI impI)
    fix j :: nat assume "2 + 1 \<le> j \<and> j < 5"
    then consider "j = 3" | "j = 4" by linarith
    then show "j < length exhausted_stack \<and>
        Contains (exhausted_stack ! j) ''github.com/sirupsen/logrus''"
      by cases (simp_all add: exhausted_stack_def)
  qed
  have c': "5 < length exhausted_stack \<longrightarrow>
      \<not> Contains (exhausted_stack ! 5) ''github.com/sirupsen/logrus''"
    by (simp add: exhausted_stack_def)
  from a' b' c' have 2: "framesToSkip exhausted_stack 2 = 5 + 2 - 1"
    by (simp only: framesToSkip_first_outside [of exhausted_stack 2 5] simp_thms)
  from 1 2 show ?thesis by simp
qed

subsection \<open>The cause of an entry\<close>

lemma doPrintf_no_percent:
  assumes "CHR ''%'' \<notin> set s"
  shows "doPrintf s = s"
proof -
  from assms have h: "dropWhile (\<lambda>c. c \<noteq> CHR ''%'') s = []" by (induction s) auto
  show ?thesis by (subst doPrintf.simps) (simp only: h list.case)
qed

text \<open>
  A dot starts a precision only when a byte follows it: at the end of the format the dot
  is the verb, and it has no operand.
\<close>

lemma doPrintf_final_dot:
  "doPrintf ''%.'' = ''%!.(MISSING)''"
  "doPrintf ''50%.'' = ''50%!.(MISSING)''"
  "doPrintf ''%.d'' = ''%!d(MISSING)''"
  "doPrintf ''%.3'' = ''%!(NOVERB)''"
  by (simp_all add: doPrintf.simps doVerb_def argNumber_def doWidth_def doPrec_def parsenum_def
      is_flag_def noVerbString_def DecodeRuneInString_def byte_of_def missingArg_def
      percentBangString_def missingString_def is_digit_def tooLarge_def)

text \<open>
  Property X1. \<^verbatim>\<open>extractError\<close> searches the field names \<^verbatim>\<open>logrus.ErrorKey\<close> and \<^verbatim>\<open>err\<close> in
  that order and returns the first value that is an error: the value under
  \<^verbatim>\<open>logrus.ErrorKey\<close> when it is an error, otherwise the value under \<^verbatim>\<open>err\<close> when that is
  an error. When neither is, it returns \<^verbatim>\<open>fmt.Errorf(entry.Message)\<close>, and the description
  of that error is the message whenever the message has no percent sign, the empty message
  included.
\<close>

theorem extractError_fields:
  "(\<forall>v err. Data entry ErrorKey = Some v \<and> as_error v = Some err \<longrightarrow> extractError entry = err) \<and>
   (\<forall>v err. (\<forall>w. Data entry ErrorKey = Some w \<longrightarrow> as_error w = None) \<and>
       Data entry ''err'' = Some v \<and> as_error v = Some err \<longrightarrow> extractError entry = err) \<and>
   ((\<forall>w. Data entry ErrorKey = Some w \<longrightarrow> as_error w = None) \<and>
    (\<forall>w. Data entry ''err'' = Some w \<longrightarrow> as_error w = None) \<longrightarrow>
      extractError entry = Errorf (Message entry) \<and>
      (CHR ''%'' \<notin> set (Message entry) \<longrightarrow>
         Error (extractError entry) = Returns (Message entry)))"
  by (auto simp: extractError_def wellKnownErrorFields_def Errorf_def doPrintf_no_percent
      split: option.splits)

text \<open>
  The statement on X1 on an entry with both fields holding errors, on one whose field
  \<^verbatim>\<open>error\<close> is no error, and on entries without fields, one with an empty message.
\<close>

theorem extractError_fields_witness:
  "extractError (example_entry ErrorLevel ''boom''
     [ErrorKey \<mapsto> error_value errX, ''err'' \<mapsto> error_value multiErr1]) = errX \<and>
   extractError (example_entry ErrorLevel ''boom''
     [ErrorKey \<mapsto> plain_value ''timeout'', ''err'' \<mapsto> error_value errX]) = errX \<and>
   Error (extractError (example_entry ErrorLevel ''boom'' Map.empty)) = Returns ''boom'' \<and>
   Error (extractError (example_entry ErrorLevel [] Map.empty)) = Returns []"
proof -
  let ?e1 = "example_entry ErrorLevel ''boom''
     [ErrorKey \<mapsto> error_value errX, ''err'' \<mapsto> error_value multiErr1]"
  let ?e2 = "example_entry ErrorLevel ''boom''
     [ErrorKey \<mapsto> plain_value ''timeout'', ''err'' \<mapsto> error_value errX]"
  let ?e3 = "example_entry ErrorLevel ''boom'' Map.empty"
  let ?e4 = "example_entry ErrorLevel [] Map.empty"
  have a1: "Data ?e1 ErrorKey = Some (error_value errX) \<and> as_error (error_value errX) = Some errX"
    by (simp add: example_entry_def ErrorKey_def error_value_def)
  have a2: "(\<forall>w. Data ?e2 ErrorKey = Some w \<longrightarrow> as_error w = None) \<and>
      Data ?e2 ''err'' = Some (error_value errX) \<and> as_error (error_value errX) = Some errX"
    by (simp add: example_entry_def ErrorKey_def error_value_def plain_value_def)
  have a3: "(\<forall>w. Data ?e3 ErrorKey = Some w \<longrightarrow> as_error w = None) \<and>
      (\<forall>w. Data ?e3 ''err'' = Some w \<longrightarrow> as_error w = None)"
    by (simp add: example_entry_def)
  have b3: "CHR ''%'' \<notin> set (Message ?e3)" and m3: "Message ?e3 = ''boom''"
    by (simp_all add: example_entry_def)
  have a4: "(\<forall>w. Data ?e4 ErrorKey = Some w \<longrightarrow> as_error w = None) \<and>
      (\<forall>w. Data ?e4 ''err'' = Some w \<longrightarrow> as_error w = None)"
    by (simp add: example_entry_def)
  have b4: "CHR ''%'' \<notin> set (Message ?e4)" and m4: "Message ?e4 = []"
    by (simp_all add: example_entry_def)
  from a1 extractError_fields [of ?e1] have 1: "extractError ?e1 = errX" by blast
  from a2 extractError_fields [of ?e2] have 2: "extractError ?e2 = errX" by blast
  from a3 b3 extractError_fields [of ?e3]
  have "Error (extractError ?e3) = Returns (Message ?e3)" by blast
  with m3 have 3: "Error (extractError ?e3) = Returns ''boom''" by simp
  from a4 b4 extractError_fields [of ?e4]
  have "Error (extractError ?e4) = Returns (Message ?e4)" by blast
  with m4 have 4: "Error (extractError ?e4) = Returns []" by simp
  from 1 2 3 4 show ?thesis by (intro conjI)
qed

text \<open>
  Claim C2. When no well-known field holds an error, \<^verbatim>\<open>extractError\<close> returns
  \<^verbatim>\<open>fmt.Errorf(entry.Message)\<close>, and the description of that error is meant to be the
  message. \<^verbatim>\<open>fmt.Errorf\<close> reads the message as a format string, so a percent sign in the
  message starts a verb that has no operand: for the entry with the message \<^verbatim>\<open>100%\<close> and
  no field the description is \<^verbatim>\<open>100%!(NOVERB)\<close>, and for the message \<^verbatim>\<open>50% done\<close> it is
  \<^verbatim>\<open>50%!d(MISSING)one\<close>. The description differs from the message.
\<close>

theorem extractError_percent_message:
  "Error (extractError (example_entry ErrorLevel ''100%'' Map.empty)) =
     Returns ''100%!(NOVERB)'' \<and>
   Error (extractError (example_entry ErrorLevel ''50% done'' Map.empty)) =
     Returns ''50%!d(MISSING)one''"
  by (simp add: extractError_def example_entry_def wellKnownErrorFields_def Errorf_def
      doPrintf.simps doVerb_def argNumber_def doWidth_def doPrec_def parsenum_def is_flag_def
      noVerbString_def DecodeRuneInString_def byte_of_def missingArg_def percentBangString_def
      missingString_def is_digit_def)

subsection \<open>The fields of a report\<close>




lemma convertFields_Inr:
  "convertFields flds = Inr m \<longleftrightarrow>
     (\<forall>k v. flds k = Some v \<longrightarrow> convertValue v \<noteq> Panics) \<and>
     m = (\<lambda>k. case flds k of
                None \<Rightarrow> None
              | Some v \<Rightarrow> (case convertValue v of Returns s \<Rightarrow> Some s | Panics \<Rightarrow> None))"
  by (auto simp: convertFields_def)




lemma Fire_fields_Inl:
  "Fire_fields entry = Inl p \<longleftrightarrow>
     p = MethodPanic \<and> (\<exists>k v. Data entry k = Some v \<and> convertValue v = Panics)"
  by (auto simp: Fire_fields_def Let_def convertFields_def split: sum.splits)

lemma Fire_fields_Inr:
  "Fire_fields entry = Inr m \<longleftrightarrow>
     (\<exists>m0. convertFields (Data entry) = Inr m0 \<and>
        m = (let m1 = (if m0 ''time'' = None
                       then m0(''time'' \<mapsto> Format_RFC3339 (Time entry)) else m0)
             in if m1 ''msg'' = None \<and> Message entry \<noteq> []
                then m1(''msg'' \<mapsto> Message entry) else m1))"
  by (cases "convertFields (Data entry)") (auto simp: Fire_fields_def Let_def)

text \<open>
  Claim C5, as the code has it. In the fields \<^verbatim>\<open>Fire\<close> passes on, a \<^verbatim>\<open>time\<close> or \<^verbatim>\<open>msg\<close>
  field of the caller keeps the caller's value (converted like every other field);
  \<^verbatim>\<open>time\<close> is added whenever the caller gave none, as the time of the entry in the format
  \<^verbatim>\<open>time.RFC3339\<close>; \<^verbatim>\<open>msg\<close> is added, as the message of the entry, whenever the caller gave
  none and the message is not empty; with an empty message and no \<^verbatim>\<open>msg\<close> field of the
  caller there is no \<^verbatim>\<open>msg\<close> key. Every other key is as \<^verbatim>\<open>convertFields\<close> gives it. There
  are fields to pass on whenever the conversion of no field value panics.
\<close>

theorem Fire_fields_time_msg:
  "(Fire_fields entry = Inl MethodPanic \<longleftrightarrow>
      (\<exists>k v. Data entry k = Some v \<and> convertValue v = Panics)) \<and>
   ((\<forall>k v. Data entry k = Some v \<longrightarrow> convertValue v \<noteq> Panics) \<longrightarrow>
      (\<exists>m. Fire_fields entry = Inr m)) \<and>
   (\<forall>m. Fire_fields entry = Inr m \<longrightarrow>
      (\<forall>v. Data entry ''time'' = Some v \<longrightarrow>
           (\<exists>s. convertValue v = Returns s \<and> m ''time'' = Some s)) \<and>
      (Data entry ''time'' = None \<longrightarrow> m ''time'' = Some (Format_RFC3339 (Time entry))) \<and>
      (\<forall>v. Data entry ''msg'' = Some v \<longrightarrow>
           (\<exists>s. convertValue v = Returns s \<and> m ''msg'' = Some s)) \<and>
      (Data entry ''msg'' = None \<and> Message entry \<noteq> [] \<longrightarrow> m ''msg'' = Some (Message entry)) \<and>
      (Data entry ''msg'' = None \<and> Message entry = [] \<longrightarrow> m ''msg'' = None) \<and>
      (\<forall>k. k \<noteq> ''time'' \<and> k \<noteq> ''msg'' \<longrightarrow>
           (\<exists>m0. convertFields (Data entry) = Inr m0 \<and> m k = m0 k)))"
proof -
  have 1: "Fire_fields entry = Inl MethodPanic \<longleftrightarrow>
      (\<exists>k v. Data entry k = Some v \<and> convertValue v = Panics)"
    by (simp add: Fire_fields_Inl)
  have 2: "(\<forall>k v. Data entry k = Some v \<longrightarrow> convertValue v \<noteq> Panics) \<longrightarrow>
      (\<exists>m. Fire_fields entry = Inr m)"
    by (simp add: Fire_fields_Inr convertFields_Inr)
  have 3: "\<forall>m. Fire_fields entry = Inr m \<longrightarrow>
      (\<forall>v. Data entry ''time'' = Some v \<longrightarrow>
           (\<exists>s. convertValue v = Returns s \<and> m ''time'' = Some s)) \<and>
      (Data entry ''time'' = None \<longrightarrow> m ''time'' = Some (Format_RFC3339 (Time entry))) \<and>
      (\<forall>v. Data entry ''msg'' = Some v \<longrightarrow>
           (\<exists>s. convertValue v = Returns s \<and> m ''msg'' = Some s)) \<and>
      (Data entry ''msg'' = None \<and> Message entry \<noteq> [] \<longrightarrow> m ''msg'' = Some (Message entry)) \<and>
      (Data entry ''msg'' = None \<and> Message entry = [] \<longrightarrow> m ''msg'' = None) \<and>
      (\<forall>k. k \<noteq> ''time'' \<and> k \<noteq> ''msg'' \<longrightarrow>
           (\<exists>m0. convertFields (Data entry) = Inr m0 \<and> m k = m0 k))"
  proof (intro allI impI)
    fix m
    assume "Fire_fields entry = Inr m"
    then obtain m0 where c: "convertFields (Data entry) = Inr m0"
      and m: "m = (let m1 = (if m0 ''time'' = None
                       then m0(''time'' \<mapsto> Format_RFC3339 (Time entry)) else m0)
             in if m1 ''msg'' = None \<and> Message entry \<noteq> []
                then m1(''msg'' \<mapsto> Message entry) else m1)"
      by (auto simp: Fire_fields_Inr)
    from c have np: "\<And>k v. Data entry k = Some v \<Longrightarrow> \<exists>s. convertValue v = Returns s"
    proof -
      fix k v
      assume "Data entry k = Some v"
      with c have "convertValue v \<noteq> Panics" by (auto simp: convertFields_Inr)
      then show "\<exists>s. convertValue v = Returns s" by (cases "convertValue v") auto
    qed
    from c have m0: "m0 = (\<lambda>k. case Data entry k of
                None \<Rightarrow> None
              | Some v \<Rightarrow> (case convertValue v of Returns s \<Rightarrow> Some s | Panics \<Rightarrow> None))"
      by (simp add: convertFields_Inr)
    have a: "\<forall>v. Data entry ''time'' = Some v \<longrightarrow>
           (\<exists>s. convertValue v = Returns s \<and> m ''time'' = Some s)"
      using np [of "''time''"] by (auto simp: m m0 Let_def)
    have b: "Data entry ''time'' = None \<longrightarrow> m ''time'' = Some (Format_RFC3339 (Time entry))"
      by (simp add: m m0 Let_def)
    have c': "\<forall>v. Data entry ''msg'' = Some v \<longrightarrow>
           (\<exists>s. convertValue v = Returns s \<and> m ''msg'' = Some s)"
      using np [of "''msg''"] by (auto simp: m m0 Let_def)
    have d: "Data entry ''msg'' = None \<and> Message entry \<noteq> [] \<longrightarrow>
        m ''msg'' = Some (Message entry)"
      by (auto simp: m m0 Let_def split: option.splits)
    have e: "Data entry ''msg'' = None \<and> Message entry = [] \<longrightarrow> m ''msg'' = None"
      by (simp add: m m0 Let_def)
    have f: "\<forall>k. k \<noteq> ''time'' \<and> k \<noteq> ''msg'' \<longrightarrow>
           (\<exists>m0. convertFields (Data entry) = Inr m0 \<and> m k = m0 k)"
      using c by (simp add: m Let_def)
    from a b c' d e f show
     "(\<forall>v. Data entry ''time'' = Some v \<longrightarrow>
           (\<exists>s. convertValue v = Returns s \<and> m ''time'' = Some s)) \<and>
      (Data entry ''time'' = None \<longrightarrow> m ''time'' = Some (Format_RFC3339 (Time entry))) \<and>
      (\<forall>v. Data entry ''msg'' = Some v \<longrightarrow>
           (\<exists>s. convertValue v = Returns s \<and> m ''msg'' = Some s)) \<and>
      (Data entry ''msg'' = None \<and> Message entry \<noteq> [] \<longrightarrow> m ''msg'' = Some (Message entry)) \<and>
      (Data entry ''msg'' = None \<and> Message entry = [] \<longrightarrow> m ''msg'' = None) \<and>
      (\<forall>k. k \<noteq> ''time'' \<and> k \<noteq> ''msg'' \<longrightarrow>
           (\<exists>m0. convertFields (Data entry) = Inr m0 \<and> m k = m0 k))"
      by (intro conjI)
  qed
  from 1 2 3 show ?thesis by (intro conjI)
qed

text \<open>
  Claim C5 as stated fails: the second \<^verbatim>\<open>if\<close> of \<^verbatim>\<open>Fire\<close> also asks for a message that
  is not empty. For an entry with an empty message and no field, \<^verbatim>\<open>msg\<close> is absent from
  the caller's fields and is not added.
\<close>

theorem Fire_fields_msg_counterexample:
  "Data (example_entry ErrorLevel [] Map.empty) ''msg'' = None \<and>
   (\<exists>m. Fire_fields (example_entry ErrorLevel [] Map.empty) = Inr m \<and>
        m ''msg'' \<noteq> Some (Message (example_entry ErrorLevel [] Map.empty)) \<and>
        m ''msg'' = None)"
  by (simp add: Fire_fields_def Let_def convertFields_def example_entry_def)

text \<open>
  The statement on C5 on entries with a \<^verbatim>\<open>msg\<close> field, with a \<^verbatim>\<open>time\<close> field, with an empty
  message, and with another field.
\<close>

theorem Fire_fields_time_msg_witness:
  "(\<exists>m. Fire_fields (example_entry ErrorLevel ''boom'' [''msg'' \<mapsto> plain_value ''mine'']) = Inr m \<and>
        m ''time'' = Some ''2019-05-14T09:30:00Z'' \<and> m ''msg'' = Some ''mine'') \<and>
   (\<exists>m. Fire_fields (example_entry ErrorLevel ''boom'' [''time'' \<mapsto> plain_value ''noon'']) = Inr m \<and>
        m ''time'' = Some ''noon'' \<and> m ''msg'' = Some ''boom'') \<and>
   (\<exists>m. Fire_fields (example_entry ErrorLevel [] [''time'' \<mapsto> plain_value ''noon'']) = Inr m \<and>
        m ''msg'' = None) \<and>
   (\<exists>m. Fire_fields (example_entry ErrorLevel ''boom'' [''user'' \<mapsto> plain_value ''ann'']) = Inr m \<and>
        m ''user'' = Some ''ann'')"
proof -
  let ?a = "example_entry ErrorLevel ''boom'' [''msg'' \<mapsto> plain_value ''mine'']"
  let ?b = "example_entry ErrorLevel ''boom'' [''time'' \<mapsto> plain_value ''noon'']"
  let ?c = "example_entry ErrorLevel [] [''time'' \<mapsto> plain_value ''noon'']"
  let ?d = "example_entry ErrorLevel ''boom'' [''user'' \<mapsto> plain_value ''ann'']"
  note a = Fire_fields_time_msg [of ?a]
  note b = Fire_fields_time_msg [of ?b]
  note c = Fire_fields_time_msg [of ?c]
  note d = Fire_fields_time_msg [of ?d]
  have pa: "\<forall>k v. Data ?a k = Some v \<longrightarrow> convertValue v \<noteq> Panics"
    by (simp add: example_entry_def plain_value_def convertValue_def)
  have pb: "\<forall>k v. Data ?b k = Some v \<longrightarrow> convertValue v \<noteq> Panics"
    by (simp add: example_entry_def plain_value_def convertValue_def)
  have pc: "\<forall>k v. Data ?c k = Some v \<longrightarrow> convertValue v \<noteq> Panics"
    by (simp add: example_entry_def plain_value_def convertValue_def)
  have pd: "\<forall>k v. Data ?d k = Some v \<longrightarrow> convertValue v \<noteq> Panics"
    by (simp add: example_entry_def plain_value_def convertValue_def)
  from pa a [THEN conjunct2, THEN conjunct1] obtain ma where ma: "Fire_fields ?a = Inr ma"
    by blast
  from pb b [THEN conjunct2, THEN conjunct1] obtain mb where mb: "Fire_fields ?b = Inr mb"
    by blast
  from pc c [THEN conjunct2, THEN conjunct1] obtain mc where mc: "Fire_fields ?c = Inr mc"
    by blast
  from pd d [THEN conjunct2, THEN conjunct1] obtain md where md: "Fire_fields ?d = Inr md"
    by blast
  note a' = a [THEN conjunct2, THEN conjunct2, THEN spec, THEN mp, OF ma]
  note b' = b [THEN conjunct2, THEN conjunct2, THEN spec, THEN mp, OF mb]
  note c' = c [THEN conjunct2, THEN conjunct2, THEN spec, THEN mp, OF mc]
  note d' = d [THEN conjunct2, THEN conjunct2, THEN spec, THEN mp, OF md]
  have a1: "ma ''time'' = Some ''2019-05-14T09:30:00Z''"
    using a' by (simp add: example_entry_def example_time_def)
  have a2: "ma ''msg'' = Some ''mine''"
    using a' by (simp add: example_entry_def plain_value_def convertValue_def)
  have b1: "mb ''time'' = Some ''noon''"
    using b' by (simp add: example_entry_def plain_value_def convertValue_def)
  have b2: "mb ''msg'' = Some ''boom''"
    using b' by (simp add: example_entry_def)
  have c1: "mc ''msg'' = None"
    using c' by (simp add: example_entry_def)
  from d' [THEN conjunct2, THEN conjunct2, THEN conjunct2, THEN conjunct2, THEN conjunct2,
      THEN spec, of "''user''"]
  obtain m0 where c0: "convertFields (Data ?d) = Inr m0" and e0: "md ''user'' = m0 ''user''"
    by auto
  from c0 have "m0 ''user'' = Some ''ann''"
    by (simp add: convertFields_Inr example_entry_def plain_value_def convertValue_def)
  with e0 have d1: "md ''user'' = Some ''ann''" by simp
  from ma a1 a2 have 1: "\<exists>m. Fire_fields ?a = Inr m \<and>
        m ''time'' = Some ''2019-05-14T09:30:00Z'' \<and> m ''msg'' = Some ''mine''"
    by (intro exI [of _ ma] conjI)
  from mb b1 b2 have 2: "\<exists>m. Fire_fields ?b = Inr m \<and>
        m ''time'' = Some ''noon'' \<and> m ''msg'' = Some ''boom''"
    by (intro exI [of _ mb] conjI)
  from mc c1 have 3: "\<exists>m. Fire_fields ?c = Inr m \<and> m ''msg'' = None"
    by (intro exI [of _ mc] conjI)
  from md d1 have 4: "\<exists>m. Fire_fields ?d = Inr m \<and> m ''user'' = Some ''ann''"
    by (intro exI [of _ md] conjI)
  from 1 2 3 4 show ?thesis by (intro conjI)
qed

subsection \<open>Fire\<close>


lemma data_eq_True_no_panic:
  "\<forall>x. data_eq x c = Inr True \<longrightarrow> data_eq y c \<noteq> Inl p"
  "\<forall>xs. fields_eq xs cs = Inr True \<longrightarrow> fields_eq ys cs \<noteq> Inl p"
proof (induction y c and ys cs rule: data_eq_fields_eq.induct)
  case (4 t d t' d')
  show ?case
  proof (intro allI impI)
    fix x
    assume a: "data_eq x (Iface t' d') = Inr True"
    then obtain dx where x: "x = Iface t' dx" and ct: "comparable t'"
      and dx: "data_eq dx d' = Inr True"
      by (cases x) (auto split: if_splits)
    show "data_eq (Iface t d) (Iface t' d') \<noteq> Inl p"
    proof (cases "t = t'")
      case True
      with ct 4 dx show ?thesis by auto
    next
      case False
      then show ?thesis by simp
    qed
  qed
next
  case (5 xs ys)
  show ?case
  proof (intro allI impI)
    fix x
    assume "data_eq x (Fields ys) = Inr True"
    then obtain zs where "x = Fields zs" "fields_eq zs ys = Inr True"
      by (cases x) auto
    with 5 show "data_eq (Fields xs) (Fields ys) \<noteq> Inl p" by auto
  qed
next
  case (8 x xs y ys)
  show ?case
  proof (intro allI impI)
    fix zs
    assume a: "fields_eq zs (y # ys) = Inr True"
    then obtain z zs' where zs: "zs = z # zs'" by (cases zs) auto
    with a have z: "data_eq z y = Inr True" and zs': "fields_eq zs' ys = Inr True"
      by (auto split: sum.splits bool.splits)
    from z 8 have n1: "data_eq x y \<noteq> Inl p" by blast
    show "fields_eq (x # xs) (y # ys) \<noteq> Inl p"
    proof (cases "data_eq x y")
      case (Inl q)
      with n1 show ?thesis by auto
    next
      case (Inr b)
      with zs' 8 show ?thesis by (cases b) auto
    qed
  qed
qed auto

lemma interface_eq_panic:
  "interface_eq ie cause = Inl p \<longleftrightarrow>
     (\<exists>e. ie = Some e \<and> dyn_type e = dyn_type cause \<and>
          (if comparable (dyn_type cause) then data_eq (repr e) (repr cause) = Inl p
           else p = UncomparableType (dyn_type cause)))"
  by (auto simp: interface_eq_def split: option.splits)


lemma interface_eq_True_no_panic:
  assumes "interface_eq x cause = Inr True"
  shows "interface_eq y cause \<noteq> Inl p"
proof -
  from assms obtain e where e: "x = Some e" "comparable (dyn_type cause)"
    "data_eq (repr e) (repr cause) = Inr True"
    by (auto simp: interface_eq_def split: option.splits if_splits)
  from e(3) have "\<And>d. data_eq d (repr cause) \<noteq> Inl p"
    using data_eq_True_no_panic(1) by blast
  with e(2) show ?thesis by (auto simp: interface_eq_panic)
qed

lemma interface_eq_examples:
  "interface_eq (Some errX) errX = Inr True"
  "interface_eq None errX = Inr False"
  "interface_eq (Some errX) (Errorf msg) = Inr False"
  "interface_eq (Some nanErr) nanErr = Inr False"
  "interface_eq (Some multiErr1) multiErr2 = Inl (UncomparableType (GoType ''app.MultiError'' False))"
  "interface_eq (Some wrapErr1) wrapErr2 = Inl (UncomparableType (GoType ''[]string'' False))"
  "interface_eq (Some wrapErr1) errX = Inr False"
  by (simp_all add: interface_eq_def errX_def nanErr_def multiErr1_def multiErr2_def
      wrapErr1_def wrapErr2_def Errorf_def)

lemma ignoredErrors_loop_True:
  "ignoredErrors_loop ies cause = Inr True \<longleftrightarrow>
     (\<exists>ie \<in> set ies. interface_eq ie cause = Inr True)"
proof (induction ies)
  case Nil
  then show ?case by simp
next
  case (Cons ie ies)
  show ?case
  proof (cases "interface_eq ie cause")
    case (Inl q)
    then have "\<And>x. interface_eq x cause \<noteq> Inr True"
      using interface_eq_True_no_panic by blast
    with Inl show ?thesis by simp
  next
    case (Inr b)
    with Cons.IH show ?thesis by (cases b) auto
  qed
qed



lemma Fire_cases:
  "Fire r stack entry =
     (case ignoredErrors_loop (ignoredErrors r) (extractError entry) of
        Inl p \<Rightarrow> Inl (p, [])
      | Inr True \<Rightarrow> Inr (None, r, [])
      | Inr False \<Rightarrow>
          if ignoreErrorFunc r (extractError entry)
          then Inr (None, r, [CallIgnoreErrorFunc (extractError entry)])
          else
            (case Fire_fields entry of
               Inl p \<Rightarrow> Inl (p, [CallIgnoreErrorFunc (extractError entry)])
             | Inr m \<Rightarrow>
                 if ignoreFunc r (extractError entry) m
                 then Inr (None, r, [CallIgnoreErrorFunc (extractError entry),
                                     CallIgnoreFunc (extractError entry) m])
                 else Inr (None, fst (report r stack entry (extractError entry) m),
                           CallIgnoreErrorFunc (extractError entry) #
                           CallIgnoreFunc (extractError entry) m #
                           snd (report r stack entry (extractError entry) m))))"
  by (simp add: Fire_def Let_def split: sum.splits bool.splits prod.splits)

lemma report_calls: "list_all is_client_call (snd (report r stack entry cause m))"
  by (simp add: report_def Let_def)

lemma report_hook: "fst (report r stack entry cause m) = r\<lparr>reported := True\<rparr>"
  by (simp add: report_def Let_def)

lemma passes_filters_fields:
  "passes_filters r entry \<Longrightarrow> \<exists>m. Fire_fields entry = Inr m"
  by (cases "Fire_fields entry") (simp_all add: passes_filters_def)

lemma Fire_passes:
  "passes_filters r entry \<Longrightarrow> Fire_fields entry = Inr m \<Longrightarrow>
   Fire r stack entry =
     Inr (None, r\<lparr>reported := True\<rparr>,
          CallIgnoreErrorFunc (extractError entry) #
          CallIgnoreFunc (extractError entry) m #
          snd (report r stack entry (extractError entry) m))"
  by (simp add: Fire_cases passes_filters_def report_hook)

lemma Fire_suppressed:
  "\<not> passes_filters r entry \<Longrightarrow>
   (\<exists>p evs. Fire r stack entry = Inl (p, evs) \<and> client_calls evs = []) \<or>
   (\<exists>evs. Fire r stack entry = Inr (None, r, evs) \<and> client_calls evs = [])"
  by (auto simp: Fire_cases passes_filters_def client_calls_def split: sum.splits bool.splits)

lemma Fire_fields_no_field:
  "Fire_fields (example_entry level ''boom'' Map.empty) =
     Inr [''time'' \<mapsto> ''2019-05-14T09:30:00Z'', ''msg'' \<mapsto> ''boom'']"
  by (simp add: Fire_fields_def Let_def convertFields_def example_entry_def example_time_def)

lemma default_hook_passes: "passes_filters default_hook (example_entry level ''boom'' Map.empty)"
  by (simp add: passes_filters_def default_hook_def NewHook_def NewHookForLevels_def
      Fire_fields_no_field)

lemma ignoring_hook_fields:
  "ignoredErrors ignoring_hook = [Some errX]"
  "ignoreErrorFunc ignoring_hook = (\<lambda>_. False)"
  "ignoreFunc ignoring_hook = (\<lambda>_ _. False)"
  by (simp_all add: ignoring_hook_def NewHook_def NewHookForLevels_def WithIgnoredErrors_def)

text \<open>
  Claim C3. For every entry that passes the filters of \<^verbatim>\<open>Fire\<close> (so that its fields have
  been converted), the calls made on the client are: for the levels Fatal and Panic
  exactly one report with a stack trace at the level critical, for Error exactly one at
  the level error, for Warning exactly one at the level warning (each with the cause, the
  skip count of \<^verbatim>\<open>framesToSkip(2)\<close> and the fields); for Info exactly one message at the
  level info and for Debug exactly one at the level debug (each with the message and the
  fields); for any other level none.
\<close>

theorem Fire_dispatch:
  assumes "passes_filters r entry"
  shows
   "\<exists>m. Fire_fields entry = Inr m \<and>
    (Level entry = FatalLevel \<or> Level entry = PanicLevel \<longrightarrow>
       Fire_client_calls r stack entry =
         [ErrorWithStackSkipWithExtras CRIT (extractError entry) (framesToSkip stack 2) m]) \<and>
    (Level entry = ErrorLevel \<longrightarrow>
       Fire_client_calls r stack entry =
         [ErrorWithStackSkipWithExtras ERR (extractError entry) (framesToSkip stack 2) m]) \<and>
    (Level entry = WarnLevel \<longrightarrow>
       Fire_client_calls r stack entry =
         [ErrorWithStackSkipWithExtras WARN (extractError entry) (framesToSkip stack 2) m]) \<and>
    (Level entry = InfoLevel \<longrightarrow>
       Fire_client_calls r stack entry = [MessageWithExtras INFO (Message entry) m]) \<and>
    (Level entry = DebugLevel \<longrightarrow>
       Fire_client_calls r stack entry = [MessageWithExtras DEBUG (Message entry) m]) \<and>
    (Level entry \<notin> {PanicLevel, FatalLevel, ErrorLevel, WarnLevel, InfoLevel, DebugLevel} \<longrightarrow>
       Fire_client_calls r stack entry = [])"
proof -
  from assms obtain m where m: "Fire_fields entry = Inr m"
    using passes_filters_fields by blast
  have "(Level entry = FatalLevel \<or> Level entry = PanicLevel \<longrightarrow>
       Fire_client_calls r stack entry =
         [ErrorWithStackSkipWithExtras CRIT (extractError entry) (framesToSkip stack 2) m]) \<and>
    (Level entry = ErrorLevel \<longrightarrow>
       Fire_client_calls r stack entry =
         [ErrorWithStackSkipWithExtras ERR (extractError entry) (framesToSkip stack 2) m]) \<and>
    (Level entry = WarnLevel \<longrightarrow>
       Fire_client_calls r stack entry =
         [ErrorWithStackSkipWithExtras WARN (extractError entry) (framesToSkip stack 2) m]) \<and>
    (Level entry = InfoLevel \<longrightarrow>
       Fire_client_calls r stack entry = [MessageWithExtras INFO (Message entry) m]) \<and>
    (Level entry = DebugLevel \<longrightarrow>
       Fire_client_calls r stack entry = [MessageWithExtras DEBUG (Message entry) m]) \<and>
    (Level entry \<notin> {PanicLevel, FatalLevel, ErrorLevel, WarnLevel, InfoLevel, DebugLevel} \<longrightarrow>
       Fire_client_calls r stack entry = [])"
    by (simp add: Fire_client_calls_def Fire_passes [OF assms m] client_calls_def report_def
        Let_def PanicLevel_def FatalLevel_def ErrorLevel_def WarnLevel_def InfoLevel_def
        DebugLevel_def)
  with m show ?thesis by blast
qed

text \<open>
  The statement on C3 for the hook without options and an entry with the message
  \<^verbatim>\<open>boom\<close> and no field, at the levels Error, Panic, Info and Trace.
\<close>

theorem Fire_dispatch_witness:
  "Fire_client_calls default_hook example_stack (example_entry ErrorLevel ''boom'' Map.empty) =
     [ErrorWithStackSkipWithExtras ERR
        (extractError (example_entry ErrorLevel ''boom'' Map.empty))
        (framesToSkip example_stack 2)
        [''time'' \<mapsto> ''2019-05-14T09:30:00Z'', ''msg'' \<mapsto> ''boom'']] \<and>
   Fire_client_calls default_hook example_stack (example_entry PanicLevel ''boom'' Map.empty) =
     [ErrorWithStackSkipWithExtras CRIT
        (extractError (example_entry PanicLevel ''boom'' Map.empty))
        (framesToSkip example_stack 2)
        [''time'' \<mapsto> ''2019-05-14T09:30:00Z'', ''msg'' \<mapsto> ''boom'']] \<and>
   Fire_client_calls default_hook example_stack (example_entry InfoLevel ''boom'' Map.empty) =
     [MessageWithExtras INFO ''boom''
        [''time'' \<mapsto> ''2019-05-14T09:30:00Z'', ''msg'' \<mapsto> ''boom'']] \<and>
   Fire_client_calls default_hook example_stack (example_entry TraceLevel ''boom'' Map.empty) = []"
proof -
  let ?m = "[''time'' \<mapsto> ''2019-05-14T09:30:00Z'', ''msg'' \<mapsto> ''boom'']"
  have 1: "Level (example_entry ErrorLevel ''boom'' Map.empty) = ErrorLevel"
    by (simp add: example_entry_def)
  have 2: "Level (example_entry PanicLevel ''boom'' Map.empty) = FatalLevel \<or>
           Level (example_entry PanicLevel ''boom'' Map.empty) = PanicLevel"
    by (simp add: example_entry_def)
  have 3: "Level (example_entry InfoLevel ''boom'' Map.empty) = InfoLevel"
    by (simp add: example_entry_def)
  have 4: "Level (example_entry TraceLevel ''boom'' Map.empty) \<notin>
           {PanicLevel, FatalLevel, ErrorLevel, WarnLevel, InfoLevel, DebugLevel}"
    by (simp add: example_entry_def level_defs)
  have m: "Message (example_entry InfoLevel ''boom'' Map.empty) = ''boom''"
    by (simp add: example_entry_def)
  note a = Fire_dispatch [OF default_hook_passes, of ErrorLevel example_stack,
      unfolded Fire_fields_no_field]
  note b = Fire_dispatch [OF default_hook_passes, of PanicLevel example_stack,
      unfolded Fire_fields_no_field]
  note c = Fire_dispatch [OF default_hook_passes, of InfoLevel example_stack,
      unfolded Fire_fields_no_field]
  note d = Fire_dispatch [OF default_hook_passes, of TraceLevel example_stack,
      unfolded Fire_fields_no_field]
  from a 1 have c1: "Fire_client_calls default_hook example_stack (example_entry ErrorLevel ''boom'' Map.empty) =
     [ErrorWithStackSkipWithExtras ERR
        (extractError (example_entry ErrorLevel ''boom'' Map.empty))
        (framesToSkip example_stack 2) ?m]" by auto
  from b 2 have c2: "Fire_client_calls default_hook example_stack (example_entry PanicLevel ''boom'' Map.empty) =
     [ErrorWithStackSkipWithExtras CRIT
        (extractError (example_entry PanicLevel ''boom'' Map.empty))
        (framesToSkip example_stack 2) ?m]" by auto
  from c 3 m have c3: "Fire_client_calls default_hook example_stack (example_entry InfoLevel ''boom'' Map.empty) =
     [MessageWithExtras INFO ''boom'' ?m]" by auto
  from d 4 have c4: "Fire_client_calls default_hook example_stack (example_entry TraceLevel ''boom'' Map.empty) = []"
    by auto
  from c1 c2 c3 c4 show ?thesis by (intro conjI)
qed

text \<open>
  Claim C4. \<^verbatim>\<open>Fire\<close> runs its filters in one order. First the cause is compared with the
  entries of the list of ignored errors: \<^verbatim>\<open>Fire\<close> returns there, having called neither
  predicate, exactly when an entry of the list is equal to the cause. Otherwise
  \<^verbatim>\<open>ignoreErrorFunc\<close> is called on the cause, and when it holds \<^verbatim>\<open>Fire\<close> returns without
  calling \<^verbatim>\<open>ignoreFunc\<close>. Otherwise the fields are converted, \<^verbatim>\<open>ignoreFunc\<close> is called on
  the cause and the fields, and when it holds \<^verbatim>\<open>Fire\<close> returns. Only then come the calls
  on the client, after the calls of both predicates. A panic of a comparison comes before
  the call of any predicate, and a panic of the conversion after the call of
  \<^verbatim>\<open>ignoreErrorFunc\<close> and before that of \<^verbatim>\<open>ignoreFunc\<close>. Whenever a stage holds the entry
  back, or \<^verbatim>\<open>Fire\<close> panics, no call is made on the client.
\<close>

theorem Fire_filter_chain:
  "(let cause = extractError entry;
        listed = ignoredErrors_loop (ignoredErrors r) cause
    in (listed = Inr True \<longleftrightarrow> (\<exists>ie \<in> set (ignoredErrors r). interface_eq ie cause = Inr True)) \<and>
       (listed = Inr True \<longrightarrow> Fire r stack entry = Inr (None, r, [])) \<and>
       (listed = Inr False \<and> ignoreErrorFunc r cause \<longrightarrow>
          Fire r stack entry = Inr (None, r, [CallIgnoreErrorFunc cause])) \<and>
       (\<forall>m. listed = Inr False \<and> \<not> ignoreErrorFunc r cause \<and> Fire_fields entry = Inr m \<and>
            ignoreFunc r cause m \<longrightarrow>
          Fire r stack entry =
            Inr (None, r, [CallIgnoreErrorFunc cause, CallIgnoreFunc cause m])) \<and>
       (\<forall>m. listed = Inr False \<and> \<not> ignoreErrorFunc r cause \<and> Fire_fields entry = Inr m \<and>
            \<not> ignoreFunc r cause m \<longrightarrow>
          (\<exists>r' calls. Fire r stack entry =
              Inr (None, r', CallIgnoreErrorFunc cause # CallIgnoreFunc cause m # calls) \<and>
            list_all is_client_call calls)) \<and>
       (\<forall>p. listed = Inl p \<longrightarrow> Fire r stack entry = Inl (p, [])) \<and>
       (\<forall>p. listed = Inr False \<and> \<not> ignoreErrorFunc r cause \<and> Fire_fields entry = Inl p \<longrightarrow>
          Fire r stack entry = Inl (p, [CallIgnoreErrorFunc cause])) \<and>
       (\<not> passes_filters r entry \<longrightarrow> Fire_client_calls r stack entry = []))"
proof -
  let ?c = "extractError entry"
  let ?l = "ignoredErrors_loop (ignoredErrors r) ?c"
  have 1: "?l = Inr True \<longleftrightarrow> (\<exists>ie \<in> set (ignoredErrors r). interface_eq ie ?c = Inr True)"
    by (rule ignoredErrors_loop_True)
  have 2: "?l = Inr True \<longrightarrow> Fire r stack entry = Inr (None, r, [])"
    by (simp add: Fire_cases)
  have 3: "?l = Inr False \<and> ignoreErrorFunc r ?c \<longrightarrow>
      Fire r stack entry = Inr (None, r, [CallIgnoreErrorFunc ?c])"
    by (simp add: Fire_cases)
  have 4: "\<forall>m. ?l = Inr False \<and> \<not> ignoreErrorFunc r ?c \<and> Fire_fields entry = Inr m \<and>
        ignoreFunc r ?c m \<longrightarrow>
      Fire r stack entry = Inr (None, r, [CallIgnoreErrorFunc ?c, CallIgnoreFunc ?c m])"
    by (simp add: Fire_cases)
  have 5: "\<forall>m. ?l = Inr False \<and> \<not> ignoreErrorFunc r ?c \<and> Fire_fields entry = Inr m \<and>
        \<not> ignoreFunc r ?c m \<longrightarrow>
      (\<exists>r' calls. Fire r stack entry =
          Inr (None, r', CallIgnoreErrorFunc ?c # CallIgnoreFunc ?c m # calls) \<and>
        list_all is_client_call calls)"
    using report_calls by (simp add: Fire_cases)
  have 6: "\<forall>p. ?l = Inl p \<longrightarrow> Fire r stack entry = Inl (p, [])"
    by (simp add: Fire_cases)
  have 7: "\<forall>p. ?l = Inr False \<and> \<not> ignoreErrorFunc r ?c \<and> Fire_fields entry = Inl p \<longrightarrow>
      Fire r stack entry = Inl (p, [CallIgnoreErrorFunc ?c])"
    by (simp add: Fire_cases)
  have 8: "\<not> passes_filters r entry \<longrightarrow> Fire_client_calls r stack entry = []"
    using Fire_suppressed [of r entry stack] by (auto simp: Fire_client_calls_def)
  from 1 2 3 4 5 6 7 8 show ?thesis unfolding Let_def by (intro conjI)
qed

text \<open>
  The statement on C4 for a hook that ignores \<^verbatim>\<open>errX\<close> and an entry whose field \<^verbatim>\<open>err\<close>
  is \<^verbatim>\<open>errX\<close>, for a hook whose first predicate holds, for a hook whose second predicate
  holds, and for an entry with a field whose conversion panics.
\<close>

theorem Fire_filter_chain_witness:
  "Fire ignoring_hook example_stack
     (example_entry ErrorLevel ''boom'' [''err'' \<mapsto> error_value errX]) =
     Inr (None, ignoring_hook, []) \<and>
   Fire (WithIgnoreErrorFunc (\<lambda>e. Error e = Returns ''boom'') ignoring_hook) example_stack
     (example_entry ErrorLevel ''boom'' Map.empty) =
     Inr (None, WithIgnoreErrorFunc (\<lambda>e. Error e = Returns ''boom'') ignoring_hook,
          [CallIgnoreErrorFunc (extractError (example_entry ErrorLevel ''boom'' Map.empty))]) \<and>
   Fire (WithIgnoreFunc (\<lambda>e m. m ''msg'' = Some ''boom'') ignoring_hook) example_stack
     (example_entry ErrorLevel ''boom'' Map.empty) =
     Inr (None, WithIgnoreFunc (\<lambda>e m. m ''msg'' = Some ''boom'') ignoring_hook,
          [CallIgnoreErrorFunc (extractError (example_entry ErrorLevel ''boom'' Map.empty)),
           CallIgnoreFunc (extractError (example_entry ErrorLevel ''boom'' Map.empty))
             [''time'' \<mapsto> ''2019-05-14T09:30:00Z'', ''msg'' \<mapsto> ''boom'']]) \<and>
   Fire ignoring_hook example_stack
     (example_entry ErrorLevel ''boom'' [''at'' \<mapsto> nil_time_pointer]) =
     Inl (MethodPanic,
          [CallIgnoreErrorFunc
             (extractError (example_entry ErrorLevel ''boom'' [''at'' \<mapsto> nil_time_pointer]))]) \<and>
   Fire_client_calls ignoring_hook example_stack
     (example_entry ErrorLevel ''boom'' [''err'' \<mapsto> error_value errX]) = []"
proof -
  let ?e1 = "example_entry ErrorLevel ''boom'' [''err'' \<mapsto> error_value errX]"
  let ?e2 = "example_entry ErrorLevel ''boom'' Map.empty"
  let ?e4 = "example_entry ErrorLevel ''boom'' [''at'' \<mapsto> nil_time_pointer]"
  let ?h2 = "WithIgnoreErrorFunc (\<lambda>e. Error e = Returns ''boom'') ignoring_hook"
  let ?h3 = "WithIgnoreFunc (\<lambda>e m. m ''msg'' = Some ''boom'') ignoring_hook"
  let ?m = "[''time'' \<mapsto> ''2019-05-14T09:30:00Z'', ''msg'' \<mapsto> ''boom'']"
  have c1: "extractError ?e1 = errX"
    by (simp add: extractError_def wellKnownErrorFields_def ErrorKey_def example_entry_def
        error_value_def)
  have c2: "extractError ?e2 = Errorf ''boom''"
    by (simp add: extractError_def wellKnownErrorFields_def ErrorKey_def example_entry_def)
  have c4: "extractError ?e4 = Errorf ''boom''"
    by (simp add: extractError_def wellKnownErrorFields_def ErrorKey_def example_entry_def)
  have d2: "Error (Errorf ''boom'') = Returns ''boom''"
    by (simp add: Errorf_def doPrintf.simps)
  have l1: "ignoredErrors_loop (ignoredErrors ignoring_hook) (extractError ?e1) = Inr True"
    unfolding c1 by (simp add: ignoring_hook_fields interface_eq_examples)
  have l2: "ignoredErrors_loop (ignoredErrors ?h2) (extractError ?e2) = Inr False"
    unfolding c2
    by (simp add: ignoring_hook_fields interface_eq_examples WithIgnoreErrorFunc_def)
  have l3: "ignoredErrors_loop (ignoredErrors ?h3) (extractError ?e2) = Inr False"
    unfolding c2
    by (simp add: ignoring_hook_fields interface_eq_examples WithIgnoreFunc_def)
  have l4: "ignoredErrors_loop (ignoredErrors ignoring_hook) (extractError ?e4) = Inr False"
    unfolding c4 by (simp add: ignoring_hook_fields interface_eq_examples)
  have p2: "ignoreErrorFunc ?h2 (extractError ?e2)"
    unfolding c2 by (simp add: d2 WithIgnoreErrorFunc_def)
  have p3: "\<not> ignoreErrorFunc ?h3 (extractError ?e2)"
    by (simp add: WithIgnoreFunc_def ignoring_hook_fields)
  have p4: "\<not> ignoreErrorFunc ignoring_hook (extractError ?e4)"
    by (simp add: ignoring_hook_fields)
  have f3: "Fire_fields ?e2 = Inr ?m" by (rule Fire_fields_no_field)
  have f4: "Fire_fields ?e4 = Inl MethodPanic"
    by (simp add: Fire_fields_def convertFields_def convertValue_def nil_time_pointer_def
        example_entry_def)
  have q3: "ignoreFunc ?h3 (extractError ?e2) ?m"
    by (simp add: WithIgnoreFunc_def)
  have n1: "\<not> passes_filters ignoring_hook ?e1"
    by (simp add: passes_filters_def l1)
  note a = Fire_filter_chain [of ?e1 ignoring_hook example_stack, unfolded Let_def]
  note b = Fire_filter_chain [of ?e2 ?h2 example_stack, unfolded Let_def]
  note c = Fire_filter_chain [of ?e2 ?h3 example_stack, unfolded Let_def]
  note d = Fire_filter_chain [of ?e4 ignoring_hook example_stack, unfolded Let_def]
  from a l1 have r1: "Fire ignoring_hook example_stack ?e1 = Inr (None, ignoring_hook, [])"
    by blast
  from b l2 p2 have r2: "Fire ?h2 example_stack ?e2 =
      Inr (None, ?h2, [CallIgnoreErrorFunc (extractError ?e2)])"
    by blast
  from c l3 p3 f3 q3 have r3: "Fire ?h3 example_stack ?e2 =
      Inr (None, ?h3, [CallIgnoreErrorFunc (extractError ?e2),
        CallIgnoreFunc (extractError ?e2) ?m])"
    by blast
  from d l4 p4 f4 have r4: "Fire ignoring_hook example_stack ?e4 =
      Inl (MethodPanic, [CallIgnoreErrorFunc (extractError ?e4)])"
    by blast
  from a n1 have r5: "Fire_client_calls ignoring_hook example_stack ?e1 = []"
    by blast
  from r1 r2 r3 r4 r5 show ?thesis by (intro conjI)
qed




text \<open>
  Claim C10. \<^verbatim>\<open>Fire\<close> sets the field \<^verbatim>\<open>reported\<close> of the hook to true exactly when the
  entry passes the three filters, whatever the level of the entry, also a level such as
  Trace for which no call is made on the client; when a filter holds the entry back the
  field is as it was. No other field of the hook is changed.
\<close>

theorem Fire_reported_flag:
  "Fire_hook r stack entry = (if passes_filters r entry then r\<lparr>reported := True\<rparr> else r) \<and>
   (passes_filters r entry \<longrightarrow> reported (Fire_hook r stack entry)) \<and>
   (\<not> passes_filters r entry \<longrightarrow> reported (Fire_hook r stack entry) = reported r) \<and>
   Client (Fire_hook r stack entry) = Client r \<and>
   triggers (Fire_hook r stack entry) = triggers r \<and>
   ignoredErrors (Fire_hook r stack entry) = ignoredErrors r \<and>
   ignoreErrorFunc (Fire_hook r stack entry) = ignoreErrorFunc r \<and>
   ignoreFunc (Fire_hook r stack entry) = ignoreFunc r"
proof -
  have "Fire_hook r stack entry = (if passes_filters r entry then r\<lparr>reported := True\<rparr> else r)"
  proof (cases "passes_filters r entry")
    case True
    then obtain m where "Fire_fields entry = Inr m" using passes_filters_fields by blast
    with True show ?thesis by (simp add: Fire_hook_def Fire_passes)
  next
    case False
    then show ?thesis using Fire_suppressed [of r entry stack] by (auto simp: Fire_hook_def)
  qed
  then show ?thesis by simp
qed

text \<open>
  The statement on C10 for an entry at the level Trace that passes the filters (the
  field is set and no call is made on the client), and for an entry that the list of
  ignored errors holds back (the hook is as it was).
\<close>

theorem Fire_reported_flag_witness:
  "Fire_hook default_hook example_stack (example_entry TraceLevel ''boom'' Map.empty) =
     default_hook\<lparr>reported := True\<rparr> \<and>
   reported (Fire_hook default_hook example_stack (example_entry TraceLevel ''boom'' Map.empty)) \<and>
   Fire_client_calls default_hook example_stack (example_entry TraceLevel ''boom'' Map.empty) = [] \<and>
   Fire_hook ignoring_hook example_stack
     (example_entry ErrorLevel ''boom'' [''err'' \<mapsto> error_value errX]) = ignoring_hook \<and>
   reported (Fire_hook ignoring_hook example_stack
     (example_entry ErrorLevel ''boom'' [''err'' \<mapsto> error_value errX])) = False"
proof -
  let ?e1 = "example_entry ErrorLevel ''boom'' [''err'' \<mapsto> error_value errX]"
  let ?t = "example_entry TraceLevel ''boom'' Map.empty"
  have p: "passes_filters default_hook ?t" by (rule default_hook_passes)
  have c1: "extractError ?e1 = errX"
    by (simp add: extractError_def wellKnownErrorFields_def ErrorKey_def example_entry_def
        error_value_def)
  have l1: "ignoredErrors_loop (ignoredErrors ignoring_hook) (extractError ?e1) = Inr True"
    unfolding c1 by (simp add: ignoring_hook_fields interface_eq_examples)
  have n: "\<not> passes_filters ignoring_hook ?e1"
    by (simp add: passes_filters_def l1)
  have r0: "reported ignoring_hook = False"
    by (simp add: ignoring_hook_def NewHook_def NewHookForLevels_def WithIgnoredErrors_def)
  note a = Fire_reported_flag [of default_hook example_stack ?t]
  note b = Fire_reported_flag [of ignoring_hook example_stack ?e1]
  from a p have 1: "Fire_hook default_hook example_stack ?t = default_hook\<lparr>reported := True\<rparr>"
    by simp
  from a p have 2: "reported (Fire_hook default_hook example_stack ?t)" by blast
  have 3: "Fire_client_calls default_hook example_stack ?t = []"
    unfolding Fire_client_calls_def Fire_passes [OF p Fire_fields_no_field]
    by (simp add: client_calls_def report_def Let_def example_entry_def level_defs)
  from b n have 4: "Fire_hook ignoring_hook example_stack ?e1 = ignoring_hook" by simp
  from b n r0 have 5: "reported (Fire_hook ignoring_hook example_stack ?e1) = False" by simp
  from 1 2 3 4 5 show ?thesis by (intro conjI)
qed

end
